theory Spec2Isabelle
  imports Main
begin

section \<open>Session store (services/session.js)\<close>

text \<open>
  Times are milliseconds since the epoch, as \<open>Date.now()\<close> and \<open>new Date().getTime()\<close>
  give them. A stored timestamp is an ISO string written by \<open>toISOString()\<close> and read back
  by \<open>new Date(...)\<close>; both keep the millisecond value, so the model stores the value itself.
  Every clock read of the source is a parameter of the model, one per read.

  \<open>sessionData\<close> is the credential material spread into the record by \<open>createSession\<close>.
\<close>

record 'a Session =
  session_id :: string
  sessionData :: 'a
  created_at :: int
  last_accessed :: int
  expires_at :: int

record 'a SessionService =
  sessions :: "string \<rightharpoonup> 'a Session"
  sessionTimeout :: int

text \<open>
  The constructor: \<open>parseInt(process.env.SESSION_TIMEOUT_MS) || 24 * 60 * 60 * 1000\<close>.
  \<open>None\<close> is \<open>NaN\<close> (variable unset or not a number); \<open>NaN\<close> and \<open>0\<close> are falsy.
\<close>

definition newSessionService :: "int option \<Rightarrow> 'a SessionService" where
  "newSessionService parsed =
     \<lparr> sessions = Map.empty,
       sessionTimeout =
         (case parsed of
            None \<Rightarrow> 24 * 60 * 60 * 1000
          | Some n \<Rightarrow> if n = 0 then 24 * 60 * 60 * 1000 else n) \<rparr>"

text \<open>
  \<open>createSession\<close>: the identifier comes from \<open>generateSessionId\<close> (clock and random
  source), a parameter here; the three clock reads are \<open>t1\<close>, \<open>t2\<close>, \<open>t3\<close>.
\<close>

definition createSession ::
  "string \<Rightarrow> int \<Rightarrow> int \<Rightarrow> int \<Rightarrow> 'a \<Rightarrow> 'a SessionService \<Rightarrow> 'a Session \<times> 'a SessionService" where
  "createSession sessionId t1 t2 t3 sd svc =
     (let session = \<lparr> session_id = sessionId, sessionData = sd, created_at = t1,
                       last_accessed = t2, expires_at = t3 + sessionTimeout svc \<rparr>
      in (session, svc\<lparr>sessions := (sessions svc)(sessionId \<mapsto> session)\<rparr>))"

text \<open>
  \<open>getSession\<close>: \<open>None\<close> is \<open>null\<close>. The expiry test is the source's
  \<open>new Date() > new Date(session.expires_at)\<close>.
\<close>

definition getSession ::
  "int \<Rightarrow> string \<Rightarrow> 'a SessionService \<Rightarrow> 'a Session option \<times> 'a SessionService" where
  "getSession now sessionId svc =
     (case sessions svc sessionId of
        None \<Rightarrow> (None, svc)
      | Some session \<Rightarrow>
          if now > expires_at session
          then (None, svc\<lparr>sessions := (sessions svc)(sessionId := None)\<rparr>)
          else (Some session, svc))"

text \<open>
  \<open>updateLastAccessed\<close>: \<open>t1\<close> is the read of \<open>new Date()\<close> for \<open>last_accessed\<close>,
  \<open>t2\<close> the read of \<open>Date.now()\<close> for \<open>expires_at\<close>.
\<close>

definition updateLastAccessed ::
  "int \<Rightarrow> int \<Rightarrow> string \<Rightarrow> 'a SessionService \<Rightarrow> 'a SessionService" where
  "updateLastAccessed t1 t2 sessionId svc =
     (case sessions svc sessionId of
        None \<Rightarrow> svc
      | Some session \<Rightarrow>
          svc\<lparr>sessions := (sessions svc)(sessionId \<mapsto>
                 session\<lparr>last_accessed := t1, expires_at := t2 + sessionTimeout svc\<rparr>)\<rparr>)"

definition deleteSession :: "string \<Rightarrow> 'a SessionService \<Rightarrow> bool \<times> 'a SessionService" where
  "deleteSession sessionId svc =
     (sessions svc sessionId \<noteq> None, svc\<lparr>sessions := (sessions svc)(sessionId := None)\<rparr>)"

definition cleanupExpiredSessions :: "int \<Rightarrow> 'a SessionService \<Rightarrow> 'a SessionService" where
  "cleanupExpiredSessions now svc =
     svc\<lparr>sessions := (\<lambda>sessionId.
            case sessions svc sessionId of
              None \<Rightarrow> None
            | Some session \<Rightarrow> if now > expires_at session then None else Some session)\<rparr>"

text \<open>Concrete data for the closed theorems below.\<close>

definition demoSession :: "unit Session" where
  "demoSession = \<lparr> session_id = ''tos_a'', sessionData = (), created_at = 0,
                    last_accessed = 0, expires_at = 100 \<rparr>"

definition demoService :: "unit SessionService" where
  "demoService = \<lparr> sessions = [''tos_a'' \<mapsto> demoSession], sessionTimeout = 50 \<rparr>"

section \<open>Durable queue and queue processor (tos-chat/src/services/messageQueue.ts)\<close>

datatype Priority = High | Medium | Low

datatype Status = Pending | Processing | Completed | Failed

text \<open>
  \<open>messageData\<close> and \<open>updates\<close> have type \<open>any\<close> in the source: type parameters here.
  The field \<open>id\<close> is \<open>msg_id\<close> and \<open>upd_id\<close>; the fields of the conversation update that
  share a name with a field of the message carry the prefix \<open>upd_\<close>.
\<close>

record 'd QueuedMessage =
  msg_id :: string
  messageData :: 'd
  authToken :: string
  timestamp :: int
  retryCount :: int
  priority :: Priority
  status :: Status

record 'u QueuedConversationUpdate =
  upd_id :: string
  conversationId :: int
  updates :: 'u
  upd_authToken :: string
  upd_timestamp :: int
  upd_retryCount :: int

record ('d, 'u) MessageQueue =
  messageQueue :: "'d QueuedMessage list"
  conversationQueue :: "'u QueuedConversationUpdate list"
  isProcessing :: bool
  isOnline :: bool

definition maxRetries :: int where
  "maxRetries = 3"

definition batchSize :: nat where
  "batchSize = 5"

subsection \<open>Local storage\<close>

text \<open>
  The object written under the key \<open>tos_message_queue\<close>. A property is \<open>None\<close> when it is
  undefined in the parsed object, where the destructuring of \<open>loadFromStorage\<close> takes its
  default \<open>[]\<close>.
\<close>

record ('d, 'u) StoredQueue =
  messages :: "'d QueuedMessage list option"
  conversations :: "'u QueuedConversationUpdate list option"

text \<open>
  The browser's part, which is not code of the repository, is a parameter: \<open>stringify\<close> is
  \<open>JSON.stringify\<close> and \<open>parse\<close> is \<open>JSON.parse\<close> on texts of type \<open>'s\<close>, \<open>None\<close>
  when the call throws (for \<open>parse\<close> also when the text denotes no object that can be
  destructured); \<open>setItemOk\<close> says whether \<open>localStorage.setItem\<close> stores the text or
  throws; \<open>nullish\<close> says whether a payload is \<open>null\<close> or \<open>undefined\<close>, where reading a
  property of it throws. The storage itself is the text under the key, \<open>None\<close> when the
  key is absent. \<open>jsRuntime\<close> below is the browser with JavaScript's own \<open>JSON\<close>.
\<close>

record ('d, 'u, 's) Browser =
  stringify :: "('d, 'u) StoredQueue \<Rightarrow> 's option"
  parse :: "'s \<Rightarrow> ('d, 'u) StoredQueue option"
  setItemOk :: "'s \<Rightarrow> bool"
  nullish :: "'d \<Rightarrow> bool"

definition saveToStorage ::
  "('d, 'u, 's) Browser \<Rightarrow> ('d, 'u) MessageQueue \<Rightarrow> 's option \<Rightarrow> 's option" where
  "saveToStorage B this ls =
     (case stringify B \<lparr> messages = Some (messageQueue this),
                          conversations = Some (conversationQueue this) \<rparr> of
        None \<Rightarrow> ls
      | Some txt \<Rightarrow> if setItemOk B txt then Some txt else ls)"

text \<open>
  \<open>loadFromStorage\<close>: an absent key leaves the queues as they are, and so does a text
  that \<open>JSON.parse\<close> rejects (the empty text, which the source skips by \<open>if (stored)\<close>, is
  one of them).
\<close>

definition loadFromStorage ::
  "('d, 'u, 's) Browser \<Rightarrow> 's option \<Rightarrow> ('d, 'u) MessageQueue \<Rightarrow> ('d, 'u) MessageQueue" where
  "loadFromStorage B ls this =
     (case ls of
        None \<Rightarrow> this
      | Some stored \<Rightarrow>
          (case parse B stored of
             None \<Rightarrow> this
           | Some v \<Rightarrow>
               this\<lparr>messageQueue := (case messages v of None \<Rightarrow> [] | Some ms \<Rightarrow> ms),
                    conversationQueue := (case conversations v of None \<Rightarrow> [] | Some cs \<Rightarrow> cs)\<rparr>))"

text \<open>
  The constructor, up to the start of the timer: the field initialisers, then
  \<open>loadFromStorage\<close>. \<open>online\<close> is \<open>navigator.onLine\<close>.
\<close>

definition newMessageQueue ::
  "('d, 'u, 's) Browser \<Rightarrow> 's option \<Rightarrow> bool \<Rightarrow> ('d, 'u) MessageQueue" where
  "newMessageQueue B ls online =
     loadFromStorage B ls
       \<lparr> messageQueue = [], conversationQueue = [], isProcessing = False, isOnline = online \<rparr>"

subsection \<open>A drain pass\<close>

text \<open>
  What a pass meets outside the queue: whether each dynamic \<open>import\<close> resolves; for the
  \<open>k\<close>-th call of the pass to \<open>conversationManager.updateConversation\<close> whether it
  returned an object whose \<open>success\<close> is true (it returns one without success when its
  request fails, and changes nothing of its arguments); and what \<open>persistMessage\<close> reads
  from outside: whether the payload has a positive \<open>conversation_id\<close>, the payload after
  "add timestamp if not provided" at the \<open>k\<close>-th call, and whether the \<open>k\<close>-th POST
  came back ok with a body that parses.
\<close>

record 'd PassEnv =
  importConversationManager :: bool
  importMessagePersistence :: bool
  updateConversationOk :: "nat \<Rightarrow> bool"
  validConversation :: "'d \<Rightarrow> bool"
  withTimestamp :: "nat \<Rightarrow> 'd \<Rightarrow> 'd"
  postOk :: "nat \<Rightarrow> bool"

text \<open>
  \<open>persistMessage\<close> of the persistence service, as the queue calls it (\<open>immediate\<close> is
  false): the result's \<open>success\<close>, the payload object as the call leaves it (the call
  assigns \<open>messageData.metadata\<close> when it has no timestamp), and the retry count of the
  repeat of itself that it schedules by \<open>setTimeout\<close> after a failed request while
  \<open>retryCount < retryAttempts\<close>. That repeat is not awaited and its result is dropped;
  the payload it gets was stamped by the call that scheduled it. The token goes into the
  request only.
\<close>

definition retryAttempts :: int where
  "retryAttempts = 3"

definition persistMessage ::
  "'d PassEnv \<Rightarrow> nat \<Rightarrow> 'd \<Rightarrow> int \<Rightarrow> (bool \<times> 'd) \<times> int option" where
  "persistMessage env k md retry =
     (if \<not> validConversation env md then ((False, md), None)
      else (let stamped = withTimestamp env k md
            in if postOk env k then ((True, stamped), None)
               else ((False, stamped),
                     if retry < retryAttempts then Some (retry + 1) else None)))"

text \<open>The \<open>k\<close>-th call of a pass, as \<open>processMessages\<close> makes it and sees it.\<close>

definition persistMessageCall :: "'d PassEnv \<Rightarrow> nat \<Rightarrow> 'd QueuedMessage \<Rightarrow> bool \<times> 'd" where
  "persistMessageCall env k message =
     fst (persistMessage env k (messageData message) (retryCount message))"

text \<open>The calls a pass makes to the remote writer, in the order it makes them.\<close>

datatype ('d, 'u) RemoteCall =
    UpdateConversation "'u QueuedConversationUpdate"
  | PersistMessage "'d QueuedMessage"

text \<open>
  The body of the loop of \<open>processConversationUpdates\<close> for one update, on the
  conversation queue left by \<open>splice\<close>.
\<close>

definition attemptUpdate ::
  "bool \<Rightarrow> 'u QueuedConversationUpdate \<Rightarrow> 'u QueuedConversationUpdate list
     \<Rightarrow> 'u QueuedConversationUpdate list" where
  "attemptUpdate ok update cq =
     (if ok then cq
      else if upd_retryCount update < maxRetries
           then cq @ [update\<lparr>upd_retryCount := upd_retryCount update + 1\<rparr>]
           else cq)"

fun forUpdates ::
  "(nat \<Rightarrow> bool) \<Rightarrow> nat \<Rightarrow> 'u QueuedConversationUpdate list \<Rightarrow> 'u QueuedConversationUpdate list
     \<Rightarrow> 'u QueuedConversationUpdate list \<times> 'u QueuedConversationUpdate list" where
  "forUpdates w k [] cq = (cq, [])"
| "forUpdates w k (update # rest) cq =
     (let (cq', calls) = forUpdates w (Suc k) rest (attemptUpdate (w k) update cq)
      in (cq', update # calls))"

text \<open>
  \<open>processConversationUpdates\<close>: \<open>None\<close> when the import throws, before anything is
  changed; otherwise the new conversation queue and the updates handed to the writer.
\<close>

definition processConversationUpdates ::
  "'d PassEnv \<Rightarrow> 'u QueuedConversationUpdate list
     \<Rightarrow> ('u QueuedConversationUpdate list \<times> 'u QueuedConversationUpdate list) option" where
  "processConversationUpdates env cq =
     (if \<not> importConversationManager env then None
      else Some (forUpdates (updateConversationOk env) 0 (take batchSize cq) (drop batchSize cq)))"

text \<open>
  The body of the loop of \<open>processMessages\<close> for one message: \<open>call\<close> is the call of
  \<open>persistMessage\<close>, giving whether the result has \<open>success\<close> and the payload after the
  call. A result without success and a thrown error end in the same \<open>catch\<close>.
\<close>

definition attemptMessage ::
  "('d QueuedMessage \<Rightarrow> bool \<times> 'd) \<Rightarrow> 'd QueuedMessage \<Rightarrow> 'd QueuedMessage" where
  "attemptMessage call message =
     (let processing = message\<lparr>status := Processing\<rparr>;
          (success, md) = call processing;
          written = processing\<lparr>messageData := md\<rparr>
      in if success then written\<lparr>status := Completed\<rparr>
         else if retryCount written < maxRetries
              then written\<lparr>retryCount := retryCount written + 1, status := Pending\<rparr>
              else written\<lparr>status := Failed\<rparr>)"

text \<open>
  \<open>pendingMessages\<close> holds references to objects of the queue; the loop mutates them in
  place. The model names an object by its position in the array, which the loop does not
  rearrange.
\<close>

definition pendingMessages :: "'d QueuedMessage list \<Rightarrow> nat list" where
  "pendingMessages mq =
     take batchSize (filter (\<lambda>i. status (mq ! i) = Pending) [0..<length mq])"

fun forMessages ::
  "(nat \<Rightarrow> 'd QueuedMessage \<Rightarrow> bool \<times> 'd) \<Rightarrow> nat \<Rightarrow> nat list \<Rightarrow> 'd QueuedMessage list
     \<Rightarrow> 'd QueuedMessage list \<times> 'd QueuedMessage list" where
  "forMessages w k [] mq = (mq, [])"
| "forMessages w k (i # rest) mq =
     (let (mq', calls) = forMessages w (Suc k) rest (mq[i := attemptMessage (w k) (mq ! i)])
      in (mq', (mq ! i)\<lparr>status := Processing\<rparr> # calls))"

definition cleanUp :: "'d QueuedMessage list \<Rightarrow> 'd QueuedMessage list" where
  "cleanUp mq =
     filter (\<lambda>m. status m \<noteq> Completed \<and> \<not> (status m = Failed \<and> retryCount m \<ge> maxRetries)) mq"

definition processMessages ::
  "'d PassEnv \<Rightarrow> 'd QueuedMessage list \<Rightarrow> ('d QueuedMessage list \<times> 'd QueuedMessage list) option" where
  "processMessages env mq =
     (if \<not> importMessagePersistence env then None
      else (let (mq', calls) = forMessages (persistMessageCall env) 0 (pendingMessages mq) mq
            in Some (cleanUp mq', calls)))"

text \<open>
  \<open>processQueue\<close> in its three parts: the guard, the synchronous start of a pass (up to
  its first \<open>await\<close>), and the rest of the pass with its \<open>catch\<close> and \<open>finally\<close>.
\<close>

definition processQueue_guard :: "('d, 'u) MessageQueue \<Rightarrow> bool" where
  "processQueue_guard this = (isProcessing this \<or> \<not> isOnline this)"

definition processQueue_start :: "('d, 'u) MessageQueue \<Rightarrow> bool \<times> ('d, 'u) MessageQueue" where
  "processQueue_start this =
     (if processQueue_guard this then (False, this)
      else (True, this\<lparr>isProcessing := True\<rparr>))"

definition processQueue_try ::
  "'d PassEnv \<Rightarrow> ('d, 'u) MessageQueue \<Rightarrow> ('d, 'u) MessageQueue \<times> ('d, 'u) RemoteCall list" where
  "processQueue_try env this =
     (case processConversationUpdates env (conversationQueue this) of
        None \<Rightarrow> (this, [])
      | Some (cq, ucalls) \<Rightarrow>
          (let this1 = this\<lparr>conversationQueue := cq\<rparr>
           in case processMessages env (messageQueue this1) of
                None \<Rightarrow> (this1, map UpdateConversation ucalls)
              | Some (mq, mcalls) \<Rightarrow>
                  (this1\<lparr>messageQueue := mq\<rparr>,
                   map UpdateConversation ucalls @ map PersistMessage mcalls)))"

definition processQueue_finish ::
  "('d, 'u, 's) Browser \<Rightarrow> 'd PassEnv \<Rightarrow> ('d, 'u) MessageQueue \<times> 's option
     \<Rightarrow> (('d, 'u) MessageQueue \<times> 's option) \<times> ('d, 'u) RemoteCall list" where
  "processQueue_finish B env st =
     (let (this1, calls) = processQueue_try env (fst st);
          this2 = this1\<lparr>isProcessing := False\<rparr>
      in ((this2, saveToStorage B this2 (snd st)), calls))"

text \<open>A call of \<open>processQueue\<close> that nothing interleaves with.\<close>

definition processQueue ::
  "('d, 'u, 's) Browser \<Rightarrow> 'd PassEnv \<Rightarrow> ('d, 'u) MessageQueue \<times> 's option
     \<Rightarrow> (('d, 'u) MessageQueue \<times> 's option) \<times> ('d, 'u) RemoteCall list" where
  "processQueue B env st =
     (case processQueue_start (fst st) of
        (False, _) \<Rightarrow> (st, [])
      | (True, this1) \<Rightarrow> processQueue_finish B env (this1, snd st))"

subsection \<open>The public operations\<close>

text \<open>
  \<open>newQueuedMessage\<close> is the object literal that \<open>queueMessage\<close> builds.
  \<open>queueMessage\<close> up to its return: \<open>newId\<close> is \<open>generateId()\<close> and \<open>now\<close> is
  \<open>Date.now()\<close>. The log statement after the save reads \<open>messageData.sender\<close>: on a
  payload that is \<open>null\<close> or \<open>undefined\<close> it throws, the message being queued and saved
  already, and nothing after it runs (the id is \<open>None\<close> then). Otherwise the last
  statement calls \<open>processQueue\<close>, which runs to its first \<open>await\<close>. The result is the
  returned id, whether a pass was started, and the new state.
\<close>

definition newQueuedMessage ::
  "string \<Rightarrow> int \<Rightarrow> 'd \<Rightarrow> string \<Rightarrow> Priority \<Rightarrow> 'd QueuedMessage" where
  "newQueuedMessage newId now md token prio =
     \<lparr> msg_id = newId, messageData = md, authToken = token, timestamp = now, retryCount = 0,
       priority = prio, status = Pending \<rparr>"

definition queueMessage ::
  "('d, 'u, 's) Browser \<Rightarrow> string \<Rightarrow> int \<Rightarrow> 'd \<Rightarrow> string \<Rightarrow> Priority
     \<Rightarrow> ('d, 'u) MessageQueue \<times> 's option
     \<Rightarrow> string option \<times> bool \<times> (('d, 'u) MessageQueue \<times> 's option)" where
  "queueMessage B newId now md token prio st =
     (let queuedMessage = newQueuedMessage newId now md token prio;
          this1 = (fst st)\<lparr>messageQueue :=
                     (if prio = High then queuedMessage # messageQueue (fst st)
                      else messageQueue (fst st) @ [queuedMessage])\<rparr>;
          ls1 = saveToStorage B this1 (snd st)
      in if nullish B md then (None, False, (this1, ls1))
         else (let (started, this2) =
                     (if isOnline this1 \<and> \<not> isProcessing this1 then processQueue_start this1
                      else (False, this1))
               in (Some (msg_id queuedMessage), started, (this2, ls1))))"

definition queueConversationUpdate ::
  "('d, 'u, 's) Browser \<Rightarrow> string \<Rightarrow> int \<Rightarrow> int \<Rightarrow> 'u \<Rightarrow> string
     \<Rightarrow> ('d, 'u) MessageQueue \<times> 's option
     \<Rightarrow> string \<times> (('d, 'u) MessageQueue \<times> 's option)" where
  "queueConversationUpdate B newId now cid upd token st =
     (let queuedUpdate = \<lparr> upd_id = newId, conversationId = cid, updates = upd,
                            upd_authToken = token, upd_timestamp = now, upd_retryCount = 0 \<rparr>;
          this1 = (fst st)\<lparr>conversationQueue := conversationQueue (fst st) @ [queuedUpdate]\<rparr>
      in (upd_id queuedUpdate, (this1, saveToStorage B this1 (snd st))))"

definition hasQueuedItems :: "('d, 'u) MessageQueue \<Rightarrow> bool" where
  "hasQueuedItems this =
     (list_ex (\<lambda>m. status m = Pending) (messageQueue this) \<or> length (conversationQueue this) > 0)"

text \<open>\<open>clearFailedMessages\<close>: the count it returns, and the new state.\<close>

definition clearFailedMessages ::
  "('d, 'u, 's) Browser \<Rightarrow> ('d, 'u) MessageQueue \<times> 's option
     \<Rightarrow> nat \<times> (('d, 'u) MessageQueue \<times> 's option)" where
  "clearFailedMessages B st =
     (let failedCount = length (filter (\<lambda>m. status m = Failed) (messageQueue (fst st)));
          this1 = (fst st)\<lparr>messageQueue := filter (\<lambda>m. status m \<noteq> Failed) (messageQueue (fst st))\<rparr>
      in (failedCount, (this1, saveToStorage B this1 (snd st))))"

text \<open>
  \<open>updateAuthTokens\<close>: \<open>oldToken\<close> is \<open>None\<close> for \<open>null\<close>; \<open>!oldToken\<close> holds for
  \<open>null\<close> and for the empty string. The result says whether a pass was started.
\<close>

definition tokenMatches :: "string option \<Rightarrow> string \<Rightarrow> bool" where
  "tokenMatches oldToken token =
     (oldToken = None \<or> oldToken = Some [] \<or> oldToken = Some token)"

definition updateAuthTokens ::
  "('d, 'u, 's) Browser \<Rightarrow> string option \<Rightarrow> string
     \<Rightarrow> ('d, 'u) MessageQueue \<times> 's option
     \<Rightarrow> bool \<times> (('d, 'u) MessageQueue \<times> 's option)" where
  "updateAuthTokens B oldToken newToken st =
     (let updatedCount =
            length (filter (\<lambda>m. tokenMatches oldToken (authToken m)) (messageQueue (fst st)))
            + length (filter (\<lambda>u. tokenMatches oldToken (upd_authToken u))
                        (conversationQueue (fst st)));
          this1 = (fst st)\<lparr>
            messageQueue :=
              map (\<lambda>m. if tokenMatches oldToken (authToken m) then m\<lparr>authToken := newToken\<rparr> else m)
                (messageQueue (fst st)),
            conversationQueue :=
              map (\<lambda>u. if tokenMatches oldToken (upd_authToken u)
                        then u\<lparr>upd_authToken := newToken\<rparr> else u)
                (conversationQueue (fst st))\<rparr>
      in if updatedCount > 0
         then (let ls1 = saveToStorage B this1 (snd st);
                   (started, this2) =
                     (if isOnline this1 then processQueue_start this1 else (False, this1))
               in (started, (this2, ls1)))
         else (False, (this1, snd st)))"

subsection \<open>The pieces of a pass between two awaits\<close>

text \<open>
  What the loop of \<open>processMessages\<close> does with the result of \<open>persistMessage\<close>, and the
  test of the clean-up filter.
\<close>

definition settle :: "bool \<Rightarrow> 'd QueuedMessage \<Rightarrow> 'd QueuedMessage" where
  "settle success message =
     (if success then message\<lparr>status := Completed\<rparr>
      else if retryCount message < maxRetries
           then message\<lparr>retryCount := retryCount message + 1, status := Pending\<rparr>
           else message\<lparr>status := Failed\<rparr>)"

definition kept :: "'d QueuedMessage \<Rightarrow> bool" where
  "kept m = (status m \<noteq> Completed \<and> \<not> (status m = Failed \<and> retryCount m \<ge> maxRetries))"

subsection \<open>The queue under the event loop\<close>

text \<open>
  The runtime is single-threaded: a callback runs to its end or to an \<open>await\<close>, and an
  event is one such run. Between the start of a pass and its end other events come in:
  the pass takes its updates once (\<open>splice\<close>) and its batch once (\<open>filter\<close>, \<open>slice\<close>) and
  then awaits every remote call.

  The message array holds references to message objects, and so does the batch of a pass
  in flight. \<open>objects\<close> is the store of all message objects made so far, a reference is
  a position in it, \<open>messageRefs\<close> is \<open>this.messageQueue\<close>. Updates are in the queue or in
  the hands of one pass, never both, and are kept as values.

  Where a pass waits: for the import of the conversation manager; for the \<open>k\<close>-th call
  of \<open>updateConversation\<close>, with its result to come, the update it is for and the updates
  still to do; for the import of the persistence service; for the \<open>k\<close>-th call of
  \<open>persistMessage\<close>, with the message it is for, whether a POST was sent, the result it
  will settle with, and the messages still to do.
\<close>

datatype ('d, 'u) Pc =
    AwaitConversationImport
  | AwaitUpdate nat bool "'u QueuedConversationUpdate" "'u QueuedConversationUpdate list"
  | AwaitPersistenceImport
  | AwaitPersist nat nat "(bool \<times> 'd) \<times> int option" "nat list"

text \<open>
  A pass in flight: where it waits, the remote calls it has made, and the references it
  has handed to \<open>persistMessage\<close>, both in order.
\<close>

record ('d, 'u) Pass =
  pc :: "('d, 'u) Pc"
  remoteCalls :: "('d, 'u) RemoteCall list"
  handed :: "nat list"

text \<open>
  \<open>running\<close> are the calls of \<open>processQueue\<close> that went past the guard and have not reached
  their \<open>finally\<close>; \<open>passes\<close> and \<open>handovers\<close> collect, for each ended pass, its remote
  calls and the references it handed over. \<open>repeats\<close> are the repeats of itself that
  \<open>persistMessage\<close> has scheduled by \<open>setTimeout\<close> and that have not fired, each with the
  message whose payload it holds and its retry count; \<open>posts\<close> lists the POST requests
  sent, by the message they were for.
\<close>

record ('d, 'u, 's) System =
  objects :: "'d QueuedMessage list"
  messageRefs :: "nat list"
  updateQueue :: "'u QueuedConversationUpdate list"
  busy :: bool
  connected :: bool
  localStorage :: "'s option"
  running :: "('d, 'u) Pass list"
  passes :: "('d, 'u) RemoteCall list list"
  handovers :: "nat list list"
  repeats :: "(nat \<times> int) list"
  posts :: "nat list"

text \<open>The instance as its methods see it, and the number of passes in flight.\<close>

definition queue :: "('d, 'u, 's) System \<Rightarrow> ('d, 'u) MessageQueue" where
  "queue sys =
     \<lparr> messageQueue = map (\<lambda>a. objects sys ! a) (messageRefs sys),
       conversationQueue = updateQueue sys,
       isProcessing = busy sys,
       isOnline = connected sys \<rparr>"

definition inFlight :: "('d, 'u, 's) System \<Rightarrow> nat" where
  "inFlight sys = length (running sys)"

datatype ('d, 'u) Event =
    QueueMessage string int 'd string Priority
  | QueueConversationUpdate string int int 'u string
  | TimerTick
  | Online
  | Offline
  | ForceProcess
  | UpdateAuthTokens "string option" string
  | ClearFailedMessages
  | PassStep nat "'d PassEnv"
  | RepeatFires nat bool

definition newPass :: "('d, 'u) Pass" where
  "newPass = \<lparr> pc = AwaitConversationImport, remoteCalls = [], handed = [] \<rparr>"

text \<open>
  A method has run on the instance: the system takes over what it did to the update
  queue, the flags and the storage, and the pass it started. What it did to the message
  array is said with references, event by event.
\<close>

definition adopt ::
  "bool \<Rightarrow> ('d, 'u) MessageQueue \<times> 's option \<Rightarrow> ('d, 'u, 's) System \<Rightarrow> ('d, 'u, 's) System" where
  "adopt b st sys =
     sys\<lparr>updateQueue := conversationQueue (fst st),
         busy := isProcessing (fst st),
         connected := isOnline (fst st),
         localStorage := snd st,
         running := (if b then running sys @ [newPass] else running sys)\<rparr>"

definition callProcessQueue :: "('d, 'u, 's) System \<Rightarrow> ('d, 'u, 's) System" where
  "callProcessQueue sys =
     (let (b, this1) = processQueue_start (queue sys)
      in adopt b (this1, localStorage sys) sys)"

text \<open>The \<open>finally\<close> of the \<open>i\<close>-th pass in flight, which ends it.\<close>

definition finish ::
  "('d, 'u, 's) Browser \<Rightarrow> nat \<Rightarrow> ('d, 'u) Pass \<Rightarrow> ('d, 'u, 's) System \<Rightarrow> ('d, 'u, 's) System" where
  "finish B i p sys =
     (let sys1 = sys\<lparr>busy := False\<rparr>
      in sys1\<lparr>localStorage := saveToStorage B (queue sys1) (localStorage sys1),
              running := take i (running sys) @ drop (Suc i) (running sys),
              passes := passes sys @ [remoteCalls p],
              handovers := handovers sys @ [handed p]\<rparr>)"

text \<open>
  The loop over the spliced updates reaches its next update and calls
  \<open>updateConversation\<close> for it, or is through, and \<open>processMessages\<close> starts its import.
\<close>

definition awaitUpdates ::
  "'d PassEnv \<Rightarrow> nat \<Rightarrow> 'u QueuedConversationUpdate list \<Rightarrow> ('d, 'u) Pass \<Rightarrow> ('d, 'u) Pass" where
  "awaitUpdates env k us p =
     (case us of
        [] \<Rightarrow> p\<lparr>pc := AwaitPersistenceImport\<rparr>
      | update # rest \<Rightarrow>
          p\<lparr>pc := AwaitUpdate k (updateConversationOk env k) update rest,
            remoteCalls := remoteCalls p @ [UpdateConversation update]\<rparr>)"

text \<open>
  The loop over the batch reaches its next message: it sets the status to
  \<open>processing\<close> and calls \<open>persistMessage\<close>, which up to its \<open>await\<close> checks the
  conversation id, stamps the payload and sends the POST. When the batch is through, the
  clean-up filter runs and the pass ends.
\<close>

definition handOver ::
  "('d, 'u, 's) Browser \<Rightarrow> 'd PassEnv \<Rightarrow> nat \<Rightarrow> nat \<Rightarrow> nat list \<Rightarrow> ('d, 'u) Pass
     \<Rightarrow> ('d, 'u, 's) System \<Rightarrow> ('d, 'u, 's) System" where
  "handOver B env i k batch p sys =
     (case batch of
        [] \<Rightarrow>
          finish B i p
            (sys\<lparr>messageRefs := filter (\<lambda>a. kept (objects sys ! a)) (messageRefs sys)\<rparr>)
      | a # rest \<Rightarrow>
          (let message = (objects sys ! a)\<lparr>status := Processing\<rparr>;
               result = persistMessage env k (messageData message) (retryCount message)
           in sys\<lparr>objects := (objects sys)[a := message\<lparr>messageData := snd (fst result)\<rparr>],
                  posts := (if validConversation env (messageData message)
                            then posts sys @ [a] else posts sys),
                  running := (running sys)[i :=
                    p\<lparr>pc := AwaitPersist k a result rest,
                      remoteCalls := remoteCalls p @ [PersistMessage message],
                      handed := handed p @ [a]\<rparr>]\<rparr>))"

text \<open>
  The \<open>i\<close>-th pass in flight runs from the \<open>await\<close> it waits at to its next one, or to its
  end; \<open>env\<close> says what it meets on the way.
\<close>

definition resume ::
  "('d, 'u, 's) Browser \<Rightarrow> 'd PassEnv \<Rightarrow> nat \<Rightarrow> ('d, 'u) Pass
     \<Rightarrow> ('d, 'u, 's) System \<Rightarrow> ('d, 'u, 's) System" where
  "resume B env i p sys =
     (case pc p of
        AwaitConversationImport \<Rightarrow>
          if \<not> importConversationManager env then finish B i p sys
          else sys\<lparr>updateQueue := drop batchSize (updateQueue sys),
                   running := (running sys)[i :=
                     awaitUpdates env 0 (take batchSize (updateQueue sys)) p]\<rparr>
      | AwaitUpdate k ok update rest \<Rightarrow>
          sys\<lparr>updateQueue := attemptUpdate ok update (updateQueue sys),
              running := (running sys)[i := awaitUpdates env (Suc k) rest p]\<rparr>
      | AwaitPersistenceImport \<Rightarrow>
          if \<not> importMessagePersistence env then finish B i p sys
          else handOver B env i 0
                 (take batchSize
                    (filter (\<lambda>a. status (objects sys ! a) = Pending) (messageRefs sys)))
                 p sys
      | AwaitPersist k a result rest \<Rightarrow>
          handOver B env i (Suc k) rest p
            (sys\<lparr>objects := (objects sys)[a := settle (fst (fst result)) (objects sys ! a)],
                 repeats := (case snd result of
                               None \<Rightarrow> repeats sys
                             | Some retry \<Rightarrow> repeats sys @ [(a, retry)])\<rparr>))"

text \<open>
  \<open>RepeatFires j ok\<close>: the \<open>j\<close>-th scheduled repeat of \<open>persistMessage\<close> runs. Its payload
  passed the check and got its timestamp in the call that scheduled it, so it sends its
  POST, and after a failure schedules the next repeat while its retry count is below
  \<open>retryAttempts\<close>. Nothing awaits it: its result reaches no one.
\<close>

fun step :: "('d, 'u, 's) Browser \<Rightarrow> ('d, 'u) Event \<Rightarrow> ('d, 'u, 's) System \<Rightarrow> ('d, 'u, 's) System" where
  "step B (QueueMessage newId now md token prio) sys =
     (let (_, b, st) = queueMessage B newId now md token prio (queue sys, localStorage sys);
          a = length (objects sys)
      in adopt b st
           (sys\<lparr>objects := objects sys @ [newQueuedMessage newId now md token prio],
                messageRefs := (if prio = High then a # messageRefs sys
                                else messageRefs sys @ [a])\<rparr>))"
| "step B (QueueConversationUpdate newId now cid upd token) sys =
     adopt False
       (snd (queueConversationUpdate B newId now cid upd token (queue sys, localStorage sys))) sys"
| "step B TimerTick sys =
     (if isOnline (queue sys) \<and> \<not> isProcessing (queue sys) \<and> hasQueuedItems (queue sys)
      then callProcessQueue sys else sys)"
| "step B Online sys = callProcessQueue (sys\<lparr>connected := True\<rparr>)"
| "step B Offline sys = sys\<lparr>connected := False\<rparr>"
| "step B ForceProcess sys = callProcessQueue sys"
| "step B (UpdateAuthTokens oldToken newToken) sys =
     (let (b, st) = updateAuthTokens B oldToken newToken (queue sys, localStorage sys)
      in adopt b st
           (sys\<lparr>objects :=
                  map (\<lambda>a. if a \<in> set (messageRefs sys)
                               \<and> tokenMatches oldToken (authToken (objects sys ! a))
                            then (objects sys ! a)\<lparr>authToken := newToken\<rparr>
                            else objects sys ! a)
                    [0..<length (objects sys)]\<rparr>))"
| "step B ClearFailedMessages sys =
     adopt False (snd (clearFailedMessages B (queue sys, localStorage sys)))
       (sys\<lparr>messageRefs :=
              filter (\<lambda>a. status (objects sys ! a) \<noteq> Failed) (messageRefs sys)\<rparr>)"
| "step B (PassStep i env) sys =
     (if i < length (running sys) then resume B env i (running sys ! i) sys else sys)"
| "step B (RepeatFires j ok) sys =
     (if j < length (repeats sys)
      then (let (a, retry) = repeats sys ! j;
                others = take j (repeats sys) @ drop (Suc j) (repeats sys)
            in sys\<lparr>posts := posts sys @ [a],
                   repeats := (if \<not> ok \<and> retry < retryAttempts
                               then others @ [(a, retry + 1)] else others)\<rparr>)
      else sys)"

fun run :: "('d, 'u, 's) Browser \<Rightarrow> ('d, 'u) Event list \<Rightarrow> ('d, 'u, 's) System \<Rightarrow> ('d, 'u, 's) System" where
  "run B [] sys = sys"
| "run B (ev # evs) sys = run B evs (step B ev sys)"

text \<open>
  The system a page load sets up: the constructor's queue, every restored message a new
  object, no pass in flight and no timer of an earlier page.
\<close>

definition boot :: "('d, 'u, 's) Browser \<Rightarrow> 's option \<Rightarrow> bool \<Rightarrow> ('d, 'u, 's) System" where
  "boot B ls online =
     (let this = newMessageQueue B ls online
      in \<lparr> objects = messageQueue this,
           messageRefs = [0..<length (messageQueue this)],
           updateQueue = conversationQueue this,
           busy = isProcessing this,
           connected = isOnline this,
           localStorage = ls,
           running = [], passes = [], handovers = [], repeats = [], posts = [] \<rparr>)"

subsection \<open>\<open>JSON.stringify\<close> and \<open>JSON.parse\<close>\<close>

text \<open>
  The values of the runtime as far as \<open>JSON.stringify\<close> tells them apart: \<open>undefined\<close>,
  \<open>null\<close>, booleans, finite numbers (integers here), \<open>NaN\<close>, the two infinities, strings,
  \<open>Date\<close> objects (by the string their \<open>toJSON\<close> gives), functions, \<open>BigInt\<close>s, arrays,
  and plain objects with their own enumerable properties in enumeration order. A cyclic
  structure is no value of this type.
\<close>

datatype JsValue =
    JUndefined | JNull | JBool bool | JNum int | JNaN | JInfinity bool | JStr string
  | JDate string | JFunction | JBigInt int
  | JArr "JsValue list" | JObj "(string \<times> JsValue) list"

text \<open>
  \<open>JSON.stringify\<close> leaves out a property whose value is \<open>undefined\<close> or a function;
  in an array it writes \<open>null\<close> for such a value, as it does for \<open>NaN\<close> and the
  infinities; a \<open>Date\<close> becomes its string. \<open>jsonValue v\<close> is
  \<open>JSON.parse(JSON.stringify(v))\<close> for a value that is written; \<open>jsonProperty v\<close> is
  what is read back from a property that was saved with value \<open>v\<close>, \<open>undefined\<close> when
  the property was left out. \<open>JSON.stringify\<close> throws on a \<open>BigInt\<close>, wherever it stands.
  \<open>isJson\<close> holds for the values made of \<open>null\<close>, booleans, finite numbers, strings,
  arrays and plain objects only.
\<close>

definition omitted :: "JsValue \<Rightarrow> bool" where
  "omitted v = (v = JUndefined \<or> v = JFunction)"

fun jsonValue :: "JsValue \<Rightarrow> JsValue" where
  "jsonValue JUndefined = JNull"
| "jsonValue JFunction = JNull"
| "jsonValue JNaN = JNull"
| "jsonValue (JInfinity negative) = JNull"
| "jsonValue (JDate isoString) = JStr isoString"
| "jsonValue (JArr vs) = JArr (map jsonValue vs)"
| "jsonValue (JObj ps) =
     JObj (map (\<lambda>(k, v). (k, jsonValue v)) (filter (\<lambda>(k, v). \<not> omitted v) ps))"
| "jsonValue v = v"

fun throwsIn :: "JsValue \<Rightarrow> bool" where
  "throwsIn (JBigInt n) = True"
| "throwsIn (JArr vs) = list_ex throwsIn vs"
| "throwsIn (JObj ps) = list_ex (\<lambda>(k, v). throwsIn v) ps"
| "throwsIn v = False"

fun isJson :: "JsValue \<Rightarrow> bool" where
  "isJson JNull = True"
| "isJson (JBool b) = True"
| "isJson (JNum n) = True"
| "isJson (JStr s) = True"
| "isJson (JArr vs) = list_all isJson vs"
| "isJson (JObj ps) = list_all (\<lambda>(k, v). isJson v) ps"
| "isJson v = False"

definition jsonProperty :: "JsValue \<Rightarrow> JsValue" where
  "jsonProperty v = (if omitted v then JUndefined else jsonValue v)"

text \<open>
  The queue as an object of the runtime and back. \<open>field\<close> reads a property,
  \<open>undefined\<close> when the object has none of that name. A message is the object literal
  of \<open>queueMessage\<close>, an update the one of \<open>queueConversationUpdate\<close>. Reading back gives
  \<open>None\<close> for a value that has not the shape of the interface: the typed queue of this
  theory cannot hold it.
\<close>

definition field :: "(string \<times> JsValue) list \<Rightarrow> string \<Rightarrow> JsValue" where
  "field ps k = (case map_of ps k of None \<Rightarrow> JUndefined | Some v \<Rightarrow> v)"

definition priorityName :: "Priority \<Rightarrow> string" where
  "priorityName p = (case p of High \<Rightarrow> ''high'' | Medium \<Rightarrow> ''medium'' | Low \<Rightarrow> ''low'')"

definition statusName :: "Status \<Rightarrow> string" where
  "statusName s = (case s of Pending \<Rightarrow> ''pending'' | Processing \<Rightarrow> ''processing''
                   | Completed \<Rightarrow> ''completed'' | Failed \<Rightarrow> ''failed'')"

definition priorityOf :: "string \<Rightarrow> Priority option" where
  "priorityOf s = (if s = ''high'' then Some High else if s = ''medium'' then Some Medium
                   else if s = ''low'' then Some Low else None)"

definition statusOf :: "string \<Rightarrow> Status option" where
  "statusOf s = (if s = ''pending'' then Some Pending else if s = ''processing'' then Some Processing
                 else if s = ''completed'' then Some Completed
                 else if s = ''failed'' then Some Failed else None)"

definition encodeMessage :: "JsValue QueuedMessage \<Rightarrow> JsValue" where
  "encodeMessage m =
     JObj [(''id'', JStr (msg_id m)), (''messageData'', messageData m),
           (''authToken'', JStr (authToken m)), (''timestamp'', JNum (timestamp m)),
           (''retryCount'', JNum (retryCount m)), (''priority'', JStr (priorityName (priority m))),
           (''status'', JStr (statusName (status m)))]"

definition encodeUpdate :: "JsValue QueuedConversationUpdate \<Rightarrow> JsValue" where
  "encodeUpdate u =
     JObj [(''id'', JStr (upd_id u)), (''conversationId'', JNum (conversationId u)),
           (''updates'', updates u), (''authToken'', JStr (upd_authToken u)),
           (''timestamp'', JNum (upd_timestamp u)), (''retryCount'', JNum (upd_retryCount u))]"

definition encodeStored :: "(JsValue, JsValue) StoredQueue \<Rightarrow> JsValue" where
  "encodeStored sq =
     JObj [(''messages'', case messages sq of None \<Rightarrow> JUndefined
                                            | Some ms \<Rightarrow> JArr (map encodeMessage ms)),
           (''conversations'', case conversations sq of None \<Rightarrow> JUndefined
                                            | Some us \<Rightarrow> JArr (map encodeUpdate us))]"

definition decodeMessage :: "JsValue \<Rightarrow> JsValue QueuedMessage option" where
  "decodeMessage v =
     (case v of
        JObj ps \<Rightarrow>
          (case (field ps ''id'', field ps ''authToken'', field ps ''timestamp'',
                 field ps ''retryCount'', field ps ''priority'', field ps ''status'') of
             (JStr i, JStr token, JNum ts, JNum rc, JStr p, JStr s) \<Rightarrow>
               (case (priorityOf p, statusOf s) of
                  (Some prio, Some st) \<Rightarrow>
                    Some \<lparr> msg_id = i, messageData = field ps ''messageData'', authToken = token,
                           timestamp = ts, retryCount = rc, priority = prio, status = st \<rparr>
                | _ \<Rightarrow> None)
           | _ \<Rightarrow> None)
      | _ \<Rightarrow> None)"

definition decodeUpdate :: "JsValue \<Rightarrow> JsValue QueuedConversationUpdate option" where
  "decodeUpdate v =
     (case v of
        JObj ps \<Rightarrow>
          (case (field ps ''id'', field ps ''conversationId'', field ps ''authToken'',
                 field ps ''timestamp'', field ps ''retryCount'') of
             (JStr i, JNum cid, JStr token, JNum ts, JNum rc) \<Rightarrow>
               Some \<lparr> upd_id = i, conversationId = cid, updates = field ps ''updates'',
                      upd_authToken = token, upd_timestamp = ts, upd_retryCount = rc \<rparr>
           | _ \<Rightarrow> None)
      | _ \<Rightarrow> None)"

definition decodeArray :: "(JsValue \<Rightarrow> 'a option) \<Rightarrow> JsValue \<Rightarrow> 'a list option option" where
  "decodeArray decode v =
     (case v of
        JUndefined \<Rightarrow> Some None
      | JArr vs \<Rightarrow> map_option Some (those (map decode vs))
      | _ \<Rightarrow> None)"

definition decodeStored :: "JsValue \<Rightarrow> (JsValue, JsValue) StoredQueue option" where
  "decodeStored v =
     (case v of
        JObj ps \<Rightarrow>
          (case (decodeArray decodeMessage (field ps ''messages''),
                 decodeArray decodeUpdate (field ps ''conversations'')) of
             (Some ms, Some us) \<Rightarrow> Some \<lparr> messages = ms, conversations = us \<rparr>
           | _ \<Rightarrow> None)
      | _ \<Rightarrow> None)"

text \<open>
  The browser with JavaScript's own \<open>JSON\<close>: a text is represented by the value it
  denotes, so \<open>stringify\<close> is \<open>jsonValue\<close> of the object to save, unless a \<open>BigInt\<close>
  makes it throw, and \<open>parse\<close> reads that value as a stored queue. \<open>accepts\<close> says which
  texts \<open>localStorage.setItem\<close> stores (it throws when the quota is exceeded).
\<close>

definition jsRuntime :: "(JsValue \<Rightarrow> bool) \<Rightarrow> (JsValue, JsValue, JsValue) Browser" where
  "jsRuntime accepts =
     \<lparr> stringify = (\<lambda>sq. if throwsIn (encodeStored sq) then None
                            else Some (jsonValue (encodeStored sq))),
       parse = decodeStored,
       setItemOk = accepts,
       nullish = (\<lambda>v. v = JNull \<or> v = JUndefined) \<rparr>"

text \<open>
  The text \<open>saveToStorage\<close> writes for a queue, whether \<open>JSON.stringify\<close> gets through
  it, and a message and an update as they are read back.
\<close>

definition storedText :: "(JsValue, JsValue) MessageQueue \<Rightarrow> JsValue" where
  "storedText this =
     jsonValue (encodeStored \<lparr> messages = Some (messageQueue this),
                               conversations = Some (conversationQueue this) \<rparr>)"

definition serializable :: "(JsValue, JsValue) MessageQueue \<Rightarrow> bool" where
  "serializable this =
     (\<not> list_ex (\<lambda>m. throwsIn (messageData m)) (messageQueue this)
      \<and> \<not> list_ex (\<lambda>u. throwsIn (updates u)) (conversationQueue this))"

definition reloaded :: "JsValue QueuedMessage \<Rightarrow> JsValue QueuedMessage" where
  "reloaded m = m\<lparr>messageData := jsonProperty (messageData m)\<rparr>"

definition reloadedUpdate :: "JsValue QueuedConversationUpdate \<Rightarrow> JsValue QueuedConversationUpdate" where
  "reloadedUpdate u = u\<lparr>updates := jsonProperty (updates u)\<rparr>"

subsection \<open>Notions used by the results\<close>

text \<open>
  The queue after the loop of \<open>processMessages\<close> in a pass that nothing interleaves
  with, read off the array from left to right: \<open>k\<close> counts the messages already handed
  to the writer in this pass.
\<close>

fun walk ::
  "(nat \<Rightarrow> 'd QueuedMessage \<Rightarrow> bool \<times> 'd) \<Rightarrow> nat \<Rightarrow> 'd QueuedMessage list
     \<Rightarrow> 'd QueuedMessage list" where
  "walk w k [] = []"
| "walk w k (m # ms) =
     (if status m = Pending \<and> k < batchSize
      then attemptMessage (w k) m # walk w (Suc k) ms
      else m # walk w k ms)"

text \<open>The messages among remote calls, in order.\<close>

fun persisted :: "('d, 'u) RemoteCall list \<Rightarrow> 'd QueuedMessage list" where
  "persisted [] = []"
| "persisted (UpdateConversation u # cs) = persisted cs"
| "persisted (PersistMessage m # cs) = m # persisted cs"

fun updatesTokens :: "('d, 'u) Event list \<Rightarrow> bool" where
  "updatesTokens [] = False"
| "updatesTokens (UpdateAuthTokens oldToken newToken # evs) = True"
| "updatesTokens (ev # evs) = updatesTokens evs"

text \<open>
  The references a pass in flight holds from its batch: the message whose write it awaits
  and the messages it has still to hand over.
\<close>

definition inHands :: "('d, 'u) Pass \<Rightarrow> nat set" where
  "inHands p = (case pc p of AwaitPersist k a result rest \<Rightarrow> set (a # rest) | _ \<Rightarrow> {})"

text \<open>
  All hand-overs to \<open>persistMessage\<close> so far, those of the ended passes and those of the
  passes in flight, and how often a message was handed over.
\<close>

definition handedOver :: "('d, 'u, 's) System \<Rightarrow> nat list" where
  "handedOver sys = concat (handovers sys) @ concat (map handed (running sys))"

definition handCount :: "nat \<Rightarrow> ('d, 'u, 's) System \<Rightarrow> nat" where
  "handCount a sys = count_list (handedOver sys) a"

text \<open>A message with its token blanked: what is left when the token is not looked at.\<close>

definition exceptToken :: "'d QueuedMessage \<Rightarrow> 'd QueuedMessage" where
  "exceptToken m = m\<lparr>authToken := []\<rparr>"

text \<open>
  A message of the array whose status is \<open>processing\<close> and that no pass in flight holds.
  When no pass is in flight, these are all the \<open>processing\<close> messages of the array.
\<close>

definition stuck :: "nat \<Rightarrow> ('d, 'u, 's) System \<Rightarrow> bool" where
  "stuck a sys =
     (a \<in> set (messageRefs sys) \<and> a < length (objects sys)
      \<and> status (objects sys ! a) = Processing
      \<and> (\<forall>p\<in>set (running sys). a \<notin> inHands p))"

subsection \<open>Concrete queues and event sequences\<close>

text \<open>
  A browser whose texts are the stored objects themselves, and the scenarios the closed
  theorems below are evaluated on.
\<close>

definition demoBrowser :: "(unit, unit, (unit, unit) StoredQueue) Browser" where
  "demoBrowser = \<lparr> stringify = Some, parse = Some, setItemOk = (\<lambda>txt. True),
                    nullish = (\<lambda>md. False) \<rparr>"

definition demoMessage :: "string \<Rightarrow> int \<Rightarrow> Status \<Rightarrow> unit QueuedMessage" where
  "demoMessage i rc st =
     \<lparr> msg_id = i, messageData = (), authToken = ''tok'', timestamp = 0, retryCount = rc,
       priority = Medium, status = st \<rparr>"

definition failing :: "unit PassEnv" where
  "failing = \<lparr> importConversationManager = True, importMessagePersistence = True,
               updateConversationOk = (\<lambda>k. False), validConversation = (\<lambda>md. True),
               withTimestamp = (\<lambda>k md. md), postOk = (\<lambda>k. False) \<rparr>"

definition succeeding :: "unit PassEnv" where
  "succeeding = \<lparr> importConversationManager = True, importMessagePersistence = True,
               updateConversationOk = (\<lambda>k. True), validConversation = (\<lambda>md. True),
               withTimestamp = (\<lambda>k md. md), postOk = (\<lambda>k. True) \<rparr>"

text \<open>
  A pass over one message and no update takes three steps: the two imports, the second
  of which selects the batch and hands the message over, and the result of the write.
\<close>

definition failedPass :: "(unit, unit) Event list" where
  "failedPass = [PassStep 0 failing, PassStep 0 failing, PassStep 0 failing]"

definition fourFailures :: "(unit, unit) Event list" where
  "fourFailures =
     QueueMessage ''m1'' 0 () ''tok'' Medium # failedPass @
     TimerTick # failedPass @ TimerTick # failedPass @ TimerTick # failedPass"

definition demoQueue :: "unit QueuedMessage list \<Rightarrow> (unit, unit) MessageQueue" where
  "demoQueue mq =
     \<lparr> messageQueue = mq, conversationQueue = [], isProcessing = False, isOnline = True \<rparr>"

definition busyQueue :: "(unit, unit) MessageQueue" where
  "busyQueue = (demoQueue [demoMessage ''m1'' 0 Pending])\<lparr>isProcessing := True\<rparr>"

definition manyCalls :: "(unit, unit) Event list" where
  "manyCalls =
     [QueueMessage ''m1'' 0 () ''tok'' Medium, ForceProcess, TimerTick, Online,
      QueueMessage ''m2'' 1 () ''tok'' High, UpdateAuthTokens None ''tok2'', ForceProcess]"


text \<open>
  A page is closed in the middle of a pass: \<open>m1\<close> is handed over and its write is awaited
  when \<open>m2\<close> is queued, which saves the queue. \<open>savedMidPass\<close> is what that save wrote,
  \<open>restored\<close> the next page load on it, \<open>afterRestore\<close> what happens then.
\<close>

definition midPassSave :: "(unit, unit) Event list" where
  "midPassSave =
     [QueueMessage ''m1'' 0 () ''tok'' Medium, PassStep 0 failing, PassStep 0 failing,
      QueueMessage ''m2'' 1 () ''tok'' Medium]"

definition savedMidPass :: "(unit, unit) StoredQueue" where
  "savedMidPass =
     \<lparr> messages = Some [demoMessage ''m1'' 0 Processing,
                         newQueuedMessage ''m2'' 1 () ''tok'' Medium],
       conversations = Some [] \<rparr>"

definition restored :: "(unit, unit, (unit, unit) StoredQueue) System" where
  "restored = boot demoBrowser (Some savedMidPass) True"

definition afterRestore :: "(unit, unit) Event list" where
  "afterRestore =
     TimerTick # failedPass @ [ClearFailedMessages, Offline, Online] @ failedPass @
     [QueueMessage ''h1'' 2 () ''tok'' High, ForceProcess] @ failedPass @ [PassStep 0 failing]"

text \<open>
  Payloads: the one the application builds for a text message it migrates, whose
  \<open>tool_data\<close> is \<open>undefined\<close>; one with a \<open>NaN\<close> in its tool data; one that is JSON
  data. \<open>freshQueue\<close> is a new instance on empty storage, \<open>midQueue\<close> a queue in the
  middle of a pass.
\<close>

definition callerPayload :: JsValue where
  "callerPayload =
     JObj [(''conversation_id'', JNum 7), (''sender'', JStr ''user''), (''content'', JStr ''hi''),
           (''message_type'', JStr ''text''), (''tool_data'', JUndefined),
           (''metadata'', JObj [(''timestamp'', JStr ''2024-01-01T00:00:00.000Z''),
                                (''migrated_from_anonymous'', JBool True),
                                (''workspace_id'', JNum 5)])]"

definition toolPayload :: JsValue where
  "toolPayload =
     JObj [(''conversation_id'', JNum 7), (''sender'', JStr ''assistant''), (''content'', JStr ''ok''),
           (''message_type'', JStr ''tool_execution''),
           (''tool_data'', JObj [(''tool_name'', JStr ''t''), (''execution_time_ms'', JNaN)])]"

definition jsonPayload :: JsValue where
  "jsonPayload =
     JObj [(''conversation_id'', JNum 7), (''sender'', JStr ''user''), (''content'', JStr ''hi''),
           (''message_type'', JStr ''text''),
           (''metadata'', JObj [(''timestamp'', JStr ''2024-01-01T00:00:00.000Z''),
                                (''tags'', JArr [JStr ''a'', JNull, JBool False])])]"

definition freshQueue :: "(JsValue, JsValue) MessageQueue" where
  "freshQueue = newMessageQueue (jsRuntime (\<lambda>text. True)) None False"

definition midQueue :: "(JsValue, JsValue) MessageQueue" where
  "midQueue =
     \<lparr> messageQueue =
         [(newQueuedMessage ''m0'' 0 callerPayload ''tok'' High)\<lparr>retryCount := 2, status := Processing\<rparr>],
       conversationQueue =
         [\<lparr> upd_id = ''u1'', conversationId = 7,
             updates = JObj [(''title'', JStr ''t''), (''summary'', JUndefined)],
             upd_authToken = ''tok'', upd_timestamp = 1, upd_retryCount = 1 \<rparr>],
       isProcessing = True, isOnline = True \<rparr>"

section \<open>The loops of a pass\<close>

text \<open>
  The loop of \<open>processMessages\<close> over the selected positions leaves the queue that
  \<open>walk\<close> computes, and hands to the writer the first \<open>batchSize\<close> pending messages in
  list order.
\<close>

lemma pending_indices_Cons:
  "filter (\<lambda>i. status ((m # ms) ! i) = Pending) [0..<Suc (length ms)] =
     (if status m = Pending then [0] else []) @
       map Suc (filter (\<lambda>i. status (ms ! i) = Pending) [0..<length ms])"
proof -
  have "[0..<Suc (length ms)] = 0 # map Suc [0..<length ms]"
    by (simp add: upt_conv_Cons map_Suc_upt del: upt_Suc)
  then show ?thesis
    by (simp add: filter_map comp_def del: upt_Suc)
qed

lemma forMessages_shifted:
  "forMessages w k
     (map (\<lambda>i. i + length pre)
        (take (batchSize - k) (filter (\<lambda>i. status (ms ! i) = Pending) [0..<length ms])))
     (pre @ ms) =
   (pre @ walk w k ms,
    map (\<lambda>m. m\<lparr>status := Processing\<rparr>) (take (batchSize - k) (filter (\<lambda>m. status m = Pending) ms)))"
proof (induction ms arbitrary: pre k)
  case Nil
  then show ?case by simp
next
  case (Cons m ms)
  let ?F = "filter (\<lambda>i. status (ms ! i) = Pending) [0..<length ms]"
  have shift: "\<And>n. map (\<lambda>i. i + length pre) (map Suc (take n ?F)) =
      map (\<lambda>i. i + length (pre @ [m'])) (take n ?F)" for m' :: "'a QueuedMessage"
    by simp
  show ?case
  proof (cases "status m = Pending")
    case False
    have "forMessages w k
        (map (\<lambda>i. i + length (pre @ [m])) (take (batchSize - k) ?F)) ((pre @ [m]) @ ms) =
      ((pre @ [m]) @ walk w k ms,
       map (\<lambda>m. m\<lparr>status := Processing\<rparr>) (take (batchSize - k) (filter (\<lambda>m. status m = Pending) ms)))"
      by (rule Cons.IH)
    with False show ?thesis
      by (simp add: pending_indices_Cons take_map comp_def del: upt_Suc)
  next
    case True
    show ?thesis
    proof (cases "k < batchSize")
      case False
      then have "walk w k ms = ms" for ms :: "'a QueuedMessage list"
        by (induction ms) auto
      with False True show ?thesis by simp
    next
      case less: True
      then have bk: "batchSize - k = Suc (batchSize - Suc k)" by simp
      let ?m' = "attemptMessage (w k) m"
      have ih: "forMessages w (Suc k)
          (map (\<lambda>i. i + length (pre @ [?m'])) (take (batchSize - Suc k) ?F)) ((pre @ [?m']) @ ms) =
        ((pre @ [?m']) @ walk w (Suc k) ms,
         map (\<lambda>m. m\<lparr>status := Processing\<rparr>)
           (take (batchSize - Suc k) (filter (\<lambda>m. status m = Pending) ms)))"
        by (rule Cons.IH)
      have upd: "(pre @ m # ms)[length pre := ?m'] = (pre @ [?m']) @ ms"
        by simp
      show ?thesis
        using True less ih
        by (simp add: pending_indices_Cons bk take_map upd comp_def del: upt_Suc list_update_append)
    qed
  qed
qed

lemma forMessages_walk:
  "forMessages w 0 (pendingMessages mq) mq =
     (walk w 0 mq,
      map (\<lambda>m. m\<lparr>status := Processing\<rparr>) (take batchSize (filter (\<lambda>m. status m = Pending) mq)))"
  using forMessages_shifted [of w 0 "[]" mq]
  by (simp add: pendingMessages_def)

lemma forUpdates_calls: "snd (forUpdates w k us cq) = us"
  by (induction us arbitrary: k cq) (simp_all add: split_def)

lemma processMessages_walk:
  "processMessages env mq =
     (if importMessagePersistence env
      then Some (cleanUp (walk (persistMessageCall env) 0 mq),
                 map (\<lambda>m. m\<lparr>status := Processing\<rparr>)
                   (take batchSize (filter (\<lambda>m. status m = Pending) mq)))
      else None)"
  by (simp add: processMessages_def forMessages_walk)

lemma attemptMessage_cases:
  "attemptMessage call m =
     (if fst (call (m\<lparr>status := Processing\<rparr>))
      then m\<lparr>messageData := snd (call (m\<lparr>status := Processing\<rparr>)), status := Completed\<rparr>
      else if retryCount m < 3
      then m\<lparr>messageData := snd (call (m\<lparr>status := Processing\<rparr>)),
             retryCount := retryCount m + 1, status := Pending\<rparr>
      else m\<lparr>messageData := snd (call (m\<lparr>status := Processing\<rparr>)), status := Failed\<rparr>)"
  by (simp add: attemptMessage_def maxRetries_def Let_def split_def)

lemma attemptMessage_not_processing: "status (attemptMessage call m) \<noteq> Processing"
  by (simp add: attemptMessage_cases)

lemma attemptMessage_retry_bound:
  "retryCount m \<le> 3 \<Longrightarrow> retryCount (attemptMessage call m) \<le> 3"
  by (simp add: attemptMessage_cases)

lemma attemptMessage_msg_id: "msg_id (attemptMessage call m) = msg_id m"
  by (simp add: attemptMessage_cases)

lemma walk_processing:
  "filter (\<lambda>m. status m = Processing) (walk w k ms) = filter (\<lambda>m. status m = Processing) ms"
  by (induction ms arbitrary: k) (simp_all add: attemptMessage_not_processing)

lemma cleanUp_processing:
  "filter (\<lambda>m. status m = Processing) (cleanUp ms) = filter (\<lambda>m. status m = Processing) ms"
  unfolding cleanUp_def by (induction ms) auto

lemma walk_retry_bound:
  "\<forall>m\<in>set ms. retryCount m \<le> 3 \<Longrightarrow> \<forall>m\<in>set (walk w k ms). retryCount m \<le> 3"
  by (induction ms arbitrary: k) (simp_all add: attemptMessage_retry_bound)

lemma cleanUp_subset: "set (cleanUp ms) \<subseteq> set ms"
  by (auto simp: cleanUp_def)

lemma walk_msg_ids: "map msg_id (walk w k ms) = map msg_id ms"
  by (induction ms arbitrary: k) (simp_all add: attemptMessage_msg_id)

section \<open>What the methods do to the queue\<close>

lemma processQueue_start_queues [simp]:
  "messageQueue (snd (processQueue_start this)) = messageQueue this"
  "conversationQueue (snd (processQueue_start this)) = conversationQueue this"
  "isOnline (snd (processQueue_start this)) = isOnline this"
  by (simp_all add: processQueue_start_def)

lemma processQueue_try_messageQueue:
  "messageQueue (fst (processQueue_try env this)) =
     (if importConversationManager env \<and> importMessagePersistence env
      then cleanUp (walk (persistMessageCall env) 0 (messageQueue this))
      else messageQueue this)"
  by (simp add: processQueue_try_def processConversationUpdates_def processMessages_walk
        split_def Let_def)

lemma processQueue_try_calls:
  "snd (processQueue_try env this) =
     (if importConversationManager env
      then map UpdateConversation (take batchSize (conversationQueue this)) @
           (if importMessagePersistence env
            then map PersistMessage
                   (map (\<lambda>m. m\<lparr>status := Processing\<rparr>)
                      (take batchSize (filter (\<lambda>m. status m = Pending) (messageQueue this))))
            else [])
      else [])"
  by (simp add: processQueue_try_def processConversationUpdates_def processMessages_walk
        split_def Let_def forUpdates_calls)

lemma processQueue_finish_messageQueue:
  "messageQueue (fst (fst (processQueue_finish B env st))) =
     messageQueue (fst (processQueue_try env (fst st)))"
  by (simp add: processQueue_finish_def split_def Let_def)

lemma processQueue_finish_calls:
  "snd (processQueue_finish B env st) = snd (processQueue_try env (fst st))"
  by (simp add: processQueue_finish_def split_def Let_def)

lemma processQueue_finish_flag:
  "isProcessing (fst (fst (processQueue_finish B env st))) = False"
  by (simp add: processQueue_finish_def split_def Let_def)

lemma queueMessage_messageQueue:
  "messageQueue (fst (snd (snd (queueMessage B newId now md token prio st)))) =
     (if prio = High then newQueuedMessage newId now md token prio # messageQueue (fst st)
      else messageQueue (fst st) @ [newQueuedMessage newId now md token prio])"
  by (simp add: queueMessage_def split_def Let_def newQueuedMessage_def)

lemma updateAuthTokens_messageQueue:
  "messageQueue (fst (snd (updateAuthTokens B oldToken newToken st))) =
     map (\<lambda>m. if tokenMatches oldToken (authToken m) then m\<lparr>authToken := newToken\<rparr> else m)
       (messageQueue (fst st))"
  by (simp add: updateAuthTokens_def split_def Let_def)

lemma clearFailedMessages_messageQueue:
  "messageQueue (fst (snd (clearFailedMessages B st))) =
     filter (\<lambda>m. status m \<noteq> Failed) (messageQueue (fst st))"
  by (simp add: clearFailedMessages_def Let_def)

section \<open>Session store: results\<close>

text \<open>
  C4, as the claim states it, fails at the instant of expiry: a call made exactly at the
  expiration timestamp is not strictly before it, yet \<open>getSession\<close> returns the record.
\<close>

theorem getSession_at_expiry_counterexample:
  "fst (getSession 100 ''tos_a'' demoService) = Some demoSession
   \<and> \<not> (100 < expires_at demoSession)"
  by (simp add: getSession_def demoService_def demoSession_def)

text \<open>
  C4 (amended): for a stored session and a call at time \<open>now\<close>, \<open>getSession\<close> returns the
  record, leaving the store as it is, if and only if \<open>now\<close> is not after the expiration
  timestamp; when \<open>now\<close> is after it, the record is deleted from the store and the result is
  null; when no record exists the result is null and the store is unchanged.
\<close>

theorem getSession_iff_not_after_expiry:
  "(sessions svc sid = Some s \<longrightarrow>
      (fst (getSession now sid svc) \<noteq> None \<longleftrightarrow> now \<le> expires_at s)
    \<and> getSession now sid svc =
        (if now \<le> expires_at s then (Some s, svc)
         else (None, svc\<lparr>sessions := (sessions svc)(sid := None)\<rparr>)))
   \<and> (sessions svc sid = None \<longrightarrow> getSession now sid svc = (None, svc))"
  by (auto simp: getSession_def)

theorem getSession_iff_not_after_expiry_witness:
  "sessions demoService ''tos_a'' = Some demoSession
   \<and> sessions demoService ''tos_b'' = None
   \<and> getSession 100 ''tos_a'' demoService = (Some demoSession, demoService)
   \<and> getSession 101 ''tos_a'' demoService =
       (None, demoService\<lparr>sessions := (sessions demoService)(''tos_a'' := None)\<rparr>)
   \<and> getSession 7 ''tos_b'' demoService = (None, demoService)"
  using getSession_iff_not_after_expiry [of demoService "''tos_a''" demoSession 100]
        getSession_iff_not_after_expiry [of demoService "''tos_a''" demoSession 101]
        getSession_iff_not_after_expiry [of demoService "''tos_b''" demoSession 7]
  by (simp add: demoService_def demoSession_def)

text \<open>
  C5, as the claim states it, fails for \<open>getSession\<close>: a successful call at time 10 with a
  timeout of 50 leaves the stored expiration at 100, not at 60.
\<close>

theorem getSession_does_not_slide_counterexample:
  "fst (getSession 10 ''tos_a'' demoService) = Some demoSession
   \<and> map_option expires_at (sessions (snd (getSession 10 ''tos_a'' demoService)) ''tos_a'') = Some 100
   \<and> 10 + sessionTimeout demoService \<noteq> 100"
  by (simp add: getSession_def demoService_def demoSession_def)

text \<open>
  C5 (amended): a successful \<open>getSession\<close> call returns the record and changes nothing in
  the store; \<open>updateLastAccessed\<close> for an existing session sets last-accessed to the call's
  clock reading and the expiration to exactly the call's clock reading plus the timeout,
  and touches no other session and not the timeout; the expiration does not move backward
  whenever the clock reading of the call is not earlier than the one the current
  expiration was computed from (\<open>createSession\<close> computes it the same way, from its own
  clock reading).
\<close>

theorem expiration_sliding:
  "(sessions svc sid = Some s \<and> now \<le> expires_at s \<longrightarrow>
      getSession now sid svc = (Some s, svc))
   \<and> (sessions svc sid = Some s \<longrightarrow>
        sessions (updateLastAccessed t1 t2 sid svc) sid =
          Some (s\<lparr>last_accessed := t1, expires_at := t2 + sessionTimeout svc\<rparr>)
      \<and> sessionTimeout (updateLastAccessed t1 t2 sid svc) = sessionTimeout svc
      \<and> (\<forall>other. other \<noteq> sid \<longrightarrow>
            sessions (updateLastAccessed t1 t2 sid svc) other = sessions svc other))
   \<and> (sessions svc sid = Some s \<and> expires_at s = t0 + sessionTimeout svc \<and> t0 \<le> t2 \<longrightarrow>
        (\<exists>s'. sessions (updateLastAccessed t1 t2 sid svc) sid = Some s'
              \<and> expires_at s \<le> expires_at s'))
   \<and> expires_at (fst (createSession sid t1 t2 t0 sd svc)) = t0 + sessionTimeout svc"
  by (auto simp: getSession_def updateLastAccessed_def createSession_def Let_def)

theorem expiration_sliding_witness:
  "sessions demoService ''tos_a'' = Some demoSession
   \<and> getSession 60 ''tos_a'' demoService = (Some demoSession, demoService)
   \<and> sessions (updateLastAccessed 60 61 ''tos_a'' demoService) ''tos_a'' =
        Some (demoSession\<lparr>last_accessed := 60, expires_at := 111\<rparr>)
   \<and> expires_at demoSession = 50 + sessionTimeout demoService
   \<and> sessions (updateLastAccessed 60 61 ''tos_a'' demoService) ''tos_b'' = None"
  using expiration_sliding [of demoService "''tos_a''" demoSession 60 60 61 50]
  by (simp add: demoService_def demoSession_def)

text \<open>
  C10: \<open>updateLastAccessed\<close> makes no expiration check. For a record still in the store
  whose expiration has passed at the time of the call (so that \<open>getSession\<close> at that time
  would return null and the sweep would delete it), it stamps last-accessed and sets the
  expiration to the call's clock
  reading plus the timeout, and \<open>getSession\<close> returns the record again at every time up
  to that new expiration (so from the call on, with a timeout that is not negative). For
  an unknown id it changes nothing.
\<close>

theorem updateLastAccessed_revives_expired:
  "(sessions svc sid = Some s \<and> expires_at s < t1 \<longrightarrow>
      fst (getSession t1 sid svc) = None
    \<and> sessions (updateLastAccessed t1 t2 sid svc) sid =
        Some (s\<lparr>last_accessed := t1, expires_at := t2 + sessionTimeout svc\<rparr>)
    \<and> (t3 \<le> t2 + sessionTimeout svc \<longrightarrow>
         fst (getSession t3 sid (updateLastAccessed t1 t2 sid svc)) =
           Some (s\<lparr>last_accessed := t1, expires_at := t2 + sessionTimeout svc\<rparr>))
    \<and> (0 \<le> sessionTimeout svc \<longrightarrow>
         fst (getSession t2 sid (updateLastAccessed t1 t2 sid svc)) \<noteq> None)
    \<and> sessions (cleanupExpiredSessions t1 svc) sid = None)
   \<and> (sessions svc sid = None \<longrightarrow> updateLastAccessed t1 t2 sid svc = svc)"
  by (auto simp: getSession_def updateLastAccessed_def cleanupExpiredSessions_def)

theorem updateLastAccessed_revives_expired_witness:
  "sessions demoService ''tos_a'' = Some demoSession
   \<and> expires_at demoSession < 500
   \<and> fst (getSession 500 ''tos_a'' demoService) = None
   \<and> fst (getSession 501 ''tos_a'' (updateLastAccessed 500 500 ''tos_a'' demoService)) =
        Some (demoSession\<lparr>last_accessed := 500, expires_at := 550\<rparr>)
   \<and> updateLastAccessed 500 500 ''tos_b'' demoService = demoService"
  using updateLastAccessed_revives_expired [of demoService "''tos_a''" demoSession 500 500 501]
        updateLastAccessed_revives_expired [of demoService "''tos_b''" demoSession 500 500 501]
  by (simp add: demoService_def demoSession_def)

section \<open>Durable queue: results\<close>

lemma pendingMessages_pending:
  "i \<in> set (pendingMessages mq) \<Longrightarrow> i < length mq \<and> status (mq ! i) = Pending"
  by (auto simp: pendingMessages_def dest!: in_set_takeD)

subsection \<open>One pass at a time\<close>

lemma queue_simps [simp]:
  "messageQueue (queue sys) = map (\<lambda>a. objects sys ! a) (messageRefs sys)"
  "conversationQueue (queue sys) = updateQueue sys"
  "isProcessing (queue sys) = busy sys"
  "isOnline (queue sys) = connected sys"
  by (simp_all add: queue_def)

lemma adopt_simps [simp]:
  "objects (adopt b st sys) = objects sys"
  "messageRefs (adopt b st sys) = messageRefs sys"
  "updateQueue (adopt b st sys) = conversationQueue (fst st)"
  "busy (adopt b st sys) = isProcessing (fst st)"
  "connected (adopt b st sys) = isOnline (fst st)"
  "localStorage (adopt b st sys) = snd st"
  "running (adopt b st sys) = (if b then running sys @ [newPass] else running sys)"
  "passes (adopt b st sys) = passes sys"
  "handovers (adopt b st sys) = handovers sys"
  "repeats (adopt b st sys) = repeats sys"
  "posts (adopt b st sys) = posts sys"
  by (simp_all add: adopt_def)

lemma finish_simps [simp]:
  "objects (finish B i p sys) = objects sys"
  "messageRefs (finish B i p sys) = messageRefs sys"
  "updateQueue (finish B i p sys) = updateQueue sys"
  "busy (finish B i p sys) = False"
  "connected (finish B i p sys) = connected sys"
  "running (finish B i p sys) = take i (running sys) @ drop (Suc i) (running sys)"
  "passes (finish B i p sys) = passes sys @ [remoteCalls p]"
  "handovers (finish B i p sys) = handovers sys @ [handed p]"
  "repeats (finish B i p sys) = repeats sys"
  "posts (finish B i p sys) = posts sys"
  by (simp_all add: finish_def Let_def)

lemma processQueue_start_flags:
  "isProcessing (snd (processQueue_start this)) =
     (fst (processQueue_start this) \<or> isProcessing this)"
  "fst (processQueue_start this) \<Longrightarrow> \<not> isProcessing this"
  by (auto simp: processQueue_start_def processQueue_guard_def)

lemma queueMessage_flags:
  "isProcessing (fst (snd (snd (queueMessage B newId now md token prio st)))) =
     (fst (snd (queueMessage B newId now md token prio st)) \<or> isProcessing (fst st))"
  "fst (snd (queueMessage B newId now md token prio st)) \<Longrightarrow> \<not> isProcessing (fst st)"
  by (auto simp: queueMessage_def Let_def split_def processQueue_start_def processQueue_guard_def
        split: if_splits)

lemma updateAuthTokens_flags:
  "isProcessing (fst (snd (updateAuthTokens B oldToken newToken st))) =
     (fst (updateAuthTokens B oldToken newToken st) \<or> isProcessing (fst st))"
  "fst (updateAuthTokens B oldToken newToken st) \<Longrightarrow> \<not> isProcessing (fst st)"
  by (auto simp: updateAuthTokens_def Let_def split_def processQueue_start_def
        processQueue_guard_def split: if_splits)

lemma callProcessQueue_inFlight:
  "inFlight sys = (if isProcessing (queue sys) then 1 else 0) \<Longrightarrow>
   inFlight (callProcessQueue sys) = (if isProcessing (queue (callProcessQueue sys)) then 1 else 0)"
  using processQueue_start_flags [of "queue sys"]
  by (auto simp: callProcessQueue_def inFlight_def split_def Let_def split: if_splits)

lemma length_without:
  "i < length xs \<Longrightarrow> Suc (length (take i xs @ drop (Suc i) xs)) = length xs"
  by (simp add: min_def)

lemma handOver_inFlight:
  "i < length (running sys) \<Longrightarrow>
   (length (running (handOver B env i k batch p sys)) = length (running sys)
      \<and> busy (handOver B env i k batch p sys) = busy sys)
   \<or> (Suc (length (running (handOver B env i k batch p sys))) = length (running sys)
      \<and> \<not> busy (handOver B env i k batch p sys))"
  using length_without [of i "running sys"]
  by (cases batch) (auto simp: handOver_def Let_def simp del: length_append length_take length_drop)

lemma resume_inFlight:
  assumes i: "i < length (running sys)"
  shows "(length (running (resume B env i p sys)) = length (running sys)
      \<and> busy (resume B env i p sys) = busy sys)
   \<or> (Suc (length (running (resume B env i p sys))) = length (running sys)
      \<and> \<not> busy (resume B env i p sys))"
proof (cases "pc p")
  case AwaitConversationImport
  then show ?thesis
    using length_without [OF i]
    by (simp add: resume_def del: length_append length_take length_drop)
next
  case (AwaitUpdate k ok update rest)
  then show ?thesis by (simp add: resume_def)
next
  case AwaitPersistenceImport
  then show ?thesis
    using length_without [OF i] handOver_inFlight [OF i, of B env 0 _ p]
    by (simp add: resume_def del: length_append length_take length_drop)
next
  case (AwaitPersist k a result rest)
  let ?sys1 = "sys\<lparr>objects := (objects sys)[a := settle (fst (fst result)) (objects sys ! a)],
                 repeats := (case snd result of
                               None \<Rightarrow> repeats sys
                             | Some retry \<Rightarrow> repeats sys @ [(a, retry)])\<rparr>"
  from i have "i < length (running ?sys1)" by simp
  from handOver_inFlight [OF this, of B env "Suc k" rest p] AwaitPersist show ?thesis
    by (simp add: resume_def)
qed

lemma step_inFlight:
  assumes "inFlight sys = (if isProcessing (queue sys) then 1 else 0)"
  shows "inFlight (step B ev sys) = (if isProcessing (queue (step B ev sys)) then 1 else 0)"
proof (cases ev)
  case (QueueMessage newId now md token prio)
  then show ?thesis
    using assms queueMessage_flags [of B newId now md token prio "(queue sys, localStorage sys)"]
    by (auto simp: inFlight_def split_def Let_def split: if_splits)
next
  case (QueueConversationUpdate newId now cid upd token)
  then show ?thesis
    using assms by (simp add: inFlight_def queueConversationUpdate_def Let_def)
next
  case TimerTick
  then show ?thesis
    using assms callProcessQueue_inFlight [OF assms] by simp
next
  case Online
  then show ?thesis
    using assms callProcessQueue_inFlight [of "sys\<lparr>connected := True\<rparr>"]
    by (simp add: inFlight_def)
next
  case Offline
  then show ?thesis using assms by (simp add: inFlight_def)
next
  case ForceProcess
  then show ?thesis
    using callProcessQueue_inFlight [OF assms] by simp
next
  case (UpdateAuthTokens oldToken newToken)
  then show ?thesis
    using assms updateAuthTokens_flags [of B oldToken newToken "(queue sys, localStorage sys)"]
    by (auto simp: inFlight_def split_def Let_def split: if_splits)
next
  case ClearFailedMessages
  then show ?thesis
    using assms by (simp add: inFlight_def clearFailedMessages_def Let_def)
next
  case (PassStep i env)
  then show ?thesis
    using assms resume_inFlight [of i sys B env "running sys ! i"]
    by (auto simp: inFlight_def split: if_splits)
next
  case (RepeatFires j ok)
  then show ?thesis
    using assms by (auto simp: inFlight_def split_def Let_def split: if_splits)
qed

lemma run_inFlight:
  "inFlight sys = (if isProcessing (queue sys) then 1 else 0) \<Longrightarrow>
   inFlight (run B evs sys) = (if isProcessing (queue (run B evs sys)) then 1 else 0)"
proof (induction evs arbitrary: sys)
  case Nil
  then show ?case by simp
next
  case (Cons ev evs)
  show ?case
    using Cons.IH [OF step_inFlight [OF Cons.prems]] by simp
qed

lemma newMessageQueue_flags:
  "isProcessing (newMessageQueue B ls online) = False"
  "isOnline (newMessageQueue B ls online) = online"
  by (simp_all add: newMessageQueue_def loadFromStorage_def split: option.splits)

lemma boot_inFlight:
  "inFlight (boot B ls online) = 0"
  "\<not> busy (boot B ls online)"
  by (simp_all add: boot_def inFlight_def Let_def newMessageQueue_flags)

text \<open>
  C2: a call of \<open>processQueue\<close> made while \<open>isProcessing\<close> is set or while offline returns
  at once: it changes neither the queue nor the storage and makes no remote call. The end
  of a pass clears \<open>isProcessing\<close> whatever happened in it, also when an import threw.
  Hence over every sequence of events the number of passes in flight is 1 while
  \<open>isProcessing\<close> is set and 0 otherwise: from a page load on, no two passes overlap, and
  no item is handled by two passes at once.
\<close>

theorem no_overlapping_passes:
  "(isProcessing this \<or> \<not> isOnline this \<longrightarrow>
      processQueue_start this = (False, this)
    \<and> processQueue B env (this, ls) = ((this, ls), []))
   \<and> \<not> isProcessing (fst (fst (processQueue_finish B env st)))
   \<and> (inFlight sys = (if isProcessing (queue sys) then 1 else 0) \<longrightarrow>
        inFlight (run B evs sys) = (if isProcessing (queue (run B evs sys)) then 1 else 0))
   \<and> inFlight (run B evs (boot B ls online)) \<le> 1"
proof -
  have "inFlight (run B evs (boot B ls online)) =
          (if isProcessing (queue (run B evs (boot B ls online))) then 1 else 0)"
    by (rule run_inFlight) (simp add: boot_inFlight)
  then have "inFlight (run B evs (boot B ls online)) \<le> 1"
    by simp
  then show ?thesis
    using run_inFlight [of sys B evs] processQueue_finish_flag [of B env st]
    by (simp add: processQueue_def processQueue_start_def processQueue_guard_def)
qed

theorem no_overlapping_passes_witness:
  "isProcessing busyQueue
   \<and> processQueue_start busyQueue = (False, busyQueue)
   \<and> processQueue demoBrowser succeeding (busyQueue, None) = ((busyQueue, None), [])
   \<and> \<not> isProcessing (fst (fst (processQueue_finish demoBrowser succeeding (busyQueue, None))))
   \<and> inFlight (boot demoBrowser None True) = 0
   \<and> inFlight (run demoBrowser manyCalls (boot demoBrowser None True)) \<le> 1"
proof -
  have b: "isProcessing busyQueue"
    by (simp add: busyQueue_def)
  have i: "inFlight (boot demoBrowser None True) = 0"
    by (simp add: boot_inFlight)
  show ?thesis
    using b i
      no_overlapping_passes [of busyQueue demoBrowser succeeding None "(busyQueue, None)"
        "boot demoBrowser None True" manyCalls True]
    by blast
qed

subsection \<open>Order within a pass\<close>

lemma persisted_append: "persisted (cs @ ds) = persisted cs @ persisted ds"
  by (induction cs rule: persisted.induct) simp_all

lemma persisted_updates: "persisted (map UpdateConversation us) = []"
  by (induction us) simp_all

lemma persisted_messages: "persisted (map PersistMessage xs) = xs"
  by (induction xs) simp_all

lemma persisted_pass:
  "persisted (snd (processQueue_finish B env st)) =
     (if importConversationManager env \<and> importMessagePersistence env
      then map (\<lambda>m. m\<lparr>status := Processing\<rparr>)
             (take batchSize (filter (\<lambda>m. status m = Pending) (messageQueue (fst st))))
      else [])"
  by (simp add: processQueue_finish_calls processQueue_try_calls persisted_append
        persisted_updates persisted_messages del: map_map)



subsection \<open>Failed items\<close>

lemma walk_keeps_retained_failed:
  "filter (\<lambda>m. status m = Failed \<and> retryCount m < 3) (walk w k ms) =
   filter (\<lambda>m. status m = Failed \<and> retryCount m < 3) ms"
  by (induction ms arbitrary: k) (auto simp: attemptMessage_cases)

lemma cleanUp_keeps_retained_failed:
  "filter (\<lambda>m. status m = Failed \<and> retryCount m < 3) (cleanUp ms) =
   filter (\<lambda>m. status m = Failed \<and> retryCount m < 3) ms"
  unfolding cleanUp_def maxRetries_def by (induction ms) auto

text \<open>
  C3, as the claim states it, fails: a message whose write fails four times in a row is
  set to \<open>failed\<close> in the fourth pass and is gone from the message list at the end of that
  same pass.
\<close>

theorem failed_item_is_pruned_counterexample:
  "attemptMessage (persistMessageCall failing 0) (demoMessage ''m1'' 3 Pending) =
     demoMessage ''m1'' 3 Failed
   \<and> processMessages failing [demoMessage ''m1'' 3 Pending] =
       Some ([], [demoMessage ''m1'' 3 Processing])
   \<and> map persisted (passes (run demoBrowser fourFailures (boot demoBrowser None True))) =
       [[demoMessage ''m1'' 0 Processing], [demoMessage ''m1'' 1 Processing],
        [demoMessage ''m1'' 2 Processing], [demoMessage ''m1'' 3 Processing]]
   \<and> messageQueue (queue (run demoBrowser fourFailures (boot demoBrowser None True))) = []"
  by code_simp

text \<open>
  C3 (amended): a failed write on a message whose \<open>retryCount\<close> has reached 3 sets its
  status to \<open>failed\<close>, and the clean-up at the end of that pass removes it: after a pass
  that reached the messages, the message list holds no \<open>failed\<close> message with
  \<open>retryCount\<close> 3 or more. A pass selects only \<open>pending\<close> messages, keeps the \<open>failed\<close>
  messages with a \<open>retryCount\<close> below 3 as they are, and \<open>clearFailedMessages\<close> removes
  every \<open>failed\<close> message.
\<close>

theorem failed_items_are_pruned:
  "(3 \<le> retryCount m \<and> \<not> fst (call (m\<lparr>status := Processing\<rparr>)) \<longrightarrow>
      status (attemptMessage call m) = Failed \<and> retryCount (attemptMessage call m) = retryCount m)
   \<and> (processMessages env mq = Some (mq', calls) \<longrightarrow>
        (\<forall>x\<in>set mq'. \<not> (status x = Failed \<and> 3 \<le> retryCount x))
      \<and> filter (\<lambda>x. status x = Failed \<and> retryCount x < 3) mq' =
          filter (\<lambda>x. status x = Failed \<and> retryCount x < 3) mq
      \<and> (\<forall>x\<in>set calls. status x = Processing))
   \<and> (\<forall>i\<in>set (pendingMessages mq). status (mq ! i) = Pending)
   \<and> (\<forall>x\<in>set (messageQueue (fst (snd (clearFailedMessages B st)))). status x \<noteq> Failed)"
proof -
  have pruned: "processMessages env mq = Some (mq', calls) \<longrightarrow>
        (\<forall>x\<in>set mq'. \<not> (status x = Failed \<and> 3 \<le> retryCount x))
      \<and> filter (\<lambda>x. status x = Failed \<and> retryCount x < 3) mq' =
          filter (\<lambda>x. status x = Failed \<and> retryCount x < 3) mq
      \<and> (\<forall>x\<in>set calls. status x = Processing)"
    by (auto simp: processMessages_walk cleanUp_keeps_retained_failed walk_keeps_retained_failed
          split: if_splits)
       (simp add: cleanUp_def maxRetries_def)
  show ?thesis
    using pruned pendingMessages_pending [of _ mq]
    by (auto simp: attemptMessage_cases clearFailedMessages_messageQueue)
qed

theorem failed_items_are_pruned_witness:
  "3 \<le> retryCount (demoMessage ''m1'' 3 Pending)
   \<and> \<not> fst (persistMessageCall failing 0 ((demoMessage ''m1'' 3 Pending)\<lparr>status := Processing\<rparr>))
   \<and> status (attemptMessage (persistMessageCall failing 0) (demoMessage ''m1'' 3 Pending)) = Failed
   \<and> processMessages failing [demoMessage ''m1'' 3 Pending, demoMessage ''f1'' 1 Failed] =
       Some ([demoMessage ''f1'' 1 Failed], [demoMessage ''m1'' 3 Processing])
   \<and> list_all (\<lambda>x. \<not> (status x = Failed \<and> 3 \<le> retryCount x)) [demoMessage ''f1'' 1 Failed]
   \<and> list_all (\<lambda>i. status ([demoMessage ''m1'' 3 Pending, demoMessage ''f1'' 1 Failed] ! i) = Pending)
        (pendingMessages [demoMessage ''m1'' 3 Pending, demoMessage ''f1'' 1 Failed])
   \<and> list_all (\<lambda>x. status x \<noteq> Failed)
        (messageQueue (fst (snd (clearFailedMessages demoBrowser
           (demoQueue [demoMessage ''f1'' 1 Failed], None)))))"
proof -
  have r: "3 \<le> retryCount (demoMessage ''m1'' 3 Pending)"
    by (simp add: demoMessage_def)
  have f: "\<not> fst (persistMessageCall failing 0
                   ((demoMessage ''m1'' 3 Pending)\<lparr>status := Processing\<rparr>))"
    by (simp add: persistMessageCall_def persistMessage_def failing_def)
  have p: "processMessages failing [demoMessage ''m1'' 3 Pending, demoMessage ''f1'' 1 Failed] =
       Some ([demoMessage ''f1'' 1 Failed], [demoMessage ''m1'' 3 Processing])"
    by code_simp
  show ?thesis
    unfolding list_all_iff
    using r f p
      failed_items_are_pruned [of "demoMessage ''m1'' 3 Pending" "persistMessageCall failing 0"
        failing "[demoMessage ''m1'' 3 Pending, demoMessage ''f1'' 1 Failed]"
        "[demoMessage ''f1'' 1 Failed]" "[demoMessage ''m1'' 3 Processing]"
        demoBrowser "(demoQueue [demoMessage ''f1'' 1 Failed], None)"]
    by blast
qed

subsection \<open>Messages left in status \<open>processing\<close>\<close>

lemma inHands_simps [simp]:
  "inHands newPass = {}"
  "inHands (awaitUpdates env k us p) = {}"
  "inHands (p\<lparr>pc := AwaitPersist k a result rest, remoteCalls := cs, handed := hs\<rparr>) = set (a # rest)"
  by (auto simp: inHands_def newPass_def awaitUpdates_def split: list.splits)

lemma handed_simps [simp]:
  "handed newPass = []"
  "handed (awaitUpdates env k us p) = handed p"
  by (auto simp: newPass_def awaitUpdates_def split: list.splits)

lemma set_without: "set (take i xs @ drop (Suc i) xs) \<subseteq> set xs"
  by (auto dest: in_set_takeD in_set_dropD)

lemma count_concat_update:
  "i < length ps \<Longrightarrow>
   count_list (concat (map f (ps[i := q]))) a + count_list (f (ps ! i)) a =
   count_list (concat (map f ps)) a + count_list (f q) a"
proof (induction ps arbitrary: i)
  case Nil
  then show ?case by simp
next
  case (Cons p ps)
  show ?case
  proof (cases i)
    case 0
    then show ?thesis by simp
  next
    case (Suc j)
    with Cons.prems have "j < length ps" by simp
    from Cons.IH [OF this] Suc show ?thesis by simp
  qed
qed

lemma count_concat_without:
  "i < length ps \<Longrightarrow>
   count_list (concat (map f (take i ps @ drop (Suc i) ps))) a + count_list (f (ps ! i)) a =
   count_list (concat (map f ps)) a"
proof (induction ps arbitrary: i)
  case Nil
  then show ?case by simp
next
  case (Cons p ps)
  show ?case
  proof (cases i)
    case 0
    then show ?thesis by simp
  next
    case (Suc j)
    with Cons.prems have "j < length ps" by simp
    from Cons.IH [OF this] Suc show ?thesis by simp
  qed
qed

lemma handCount_simps [simp]:
  "handCount a (adopt b st sys) = handCount a sys"
  "handCount a (sys\<lparr>objects := os\<rparr>) = handCount a sys"
  "handCount a (sys\<lparr>messageRefs := rs\<rparr>) = handCount a sys"
  "handCount a (sys\<lparr>connected := c\<rparr>) = handCount a sys"
  "handCount a (sys\<lparr>updateQueue := us\<rparr>) = handCount a sys"
  "handCount a (sys\<lparr>repeats := rp\<rparr>) = handCount a sys"
  "handCount a (sys\<lparr>posts := po\<rparr>) = handCount a sys"
  by (simp_all add: handCount_def handedOver_def)

lemma handCount_finish:
  "i < length (running sys) \<Longrightarrow> handed p = handed (running sys ! i) \<Longrightarrow>
   handCount a (finish B i p sys) = handCount a sys"
  using count_concat_without [of i "running sys" handed a]
  by (simp add: handCount_def handedOver_def)

lemma handCount_running:
  "i < length (running sys) \<Longrightarrow> running sys' = (running sys)[i := q] \<Longrightarrow>
   handovers sys' = handovers sys \<Longrightarrow>
   handCount a sys' + count_list (handed (running sys ! i)) a =
   handCount a sys + count_list (handed q) a"
  using count_concat_update [of i "running sys" handed q a]
  by (simp add: handCount_def handedOver_def)

lemma handCount_handOver:
  assumes "i < length (running sys)" "handed p = handed (running sys ! i)"
  shows "handCount a (handOver B env i k batch p sys) =
         handCount a sys + (case batch of [] \<Rightarrow> 0 | b # rest \<Rightarrow> if b = a then 1 else 0)"
proof (cases batch)
  case Nil
  then show ?thesis
    using assms handCount_finish [of i "sys\<lparr>messageRefs := filter (\<lambda>a. kept (objects sys ! a)) (messageRefs sys)\<rparr>" p a B]
    by (simp add: handOver_def)
next
  case (Cons b rest)
  let ?q = "p\<lparr>pc := AwaitPersist k b
                (persistMessage env k (messageData ((objects sys ! b)\<lparr>status := Processing\<rparr>))
                   (retryCount ((objects sys ! b)\<lparr>status := Processing\<rparr>))) rest,
              remoteCalls := remoteCalls p @ [PersistMessage ((objects sys ! b)\<lparr>status := Processing\<rparr>)],
              handed := handed p @ [b]\<rparr>"
  have "handCount a (handOver B env i k batch p sys) + count_list (handed (running sys ! i)) a =
        handCount a sys + count_list (handed ?q) a"
    by (rule handCount_running [OF assms(1)]) (simp_all add: handOver_def Let_def Cons)
  with assms(2) Cons show ?thesis
    by simp
qed

lemma adopt_stuck:
  assumes "stuck a sys"
  shows "stuck a (adopt b st sys)"
  using assms by (auto simp: stuck_def)

lemma finish_stuck:
  assumes "stuck a sys" "i < length (running sys)"
  shows "stuck a (finish B i p sys)"
  using assms set_without [of i "running sys"]
  by (auto simp: stuck_def)

lemma handOver_stuck:
  assumes "stuck a sys" "i < length (running sys)" "a \<notin> set batch"
  shows "stuck a (handOver B env i k batch p sys)
         \<and> objects (handOver B env i k batch p sys) ! a = objects sys ! a"
proof (cases batch)
  case Nil
  then show ?thesis
    using assms set_without [of i "running sys"]
    by (auto simp: handOver_def stuck_def kept_def)
next
  case (Cons b rest)
  then show ?thesis
    using assms
    by (auto simp: handOver_def stuck_def Let_def
          dest!: set_update_subset_insert [THEN subsetD])
qed

lemma resume_stuck:
  assumes s: "stuck a sys" and i: "i < length (running sys)" and p: "p = running sys ! i"
  shows "stuck a (resume B env i p sys)
         \<and> objects (resume B env i p sys) ! a = objects sys ! a
         \<and> handCount a (resume B env i p sys) = handCount a sys"
proof -
  from s i p have hands: "a \<notin> inHands p"
    by (auto simp: stuck_def)
  have same: "handCount a sys' = handCount a sys"
    if "handed q = handed p" "running sys' = (running sys)[i := q]"
       "handovers sys' = handovers sys" for q sys'
    using handCount_running [OF i that(2,3), of a] that(1) p by simp
  show ?thesis
  proof (cases "pc p")
    case AwaitConversationImport
    then show ?thesis
      using s i p finish_stuck [OF s i, of B p] handCount_finish [OF i, of p a B]
        same [of "awaitUpdates env 0 (take batchSize (updateQueue sys)) p"
                 "sys\<lparr>updateQueue := drop batchSize (updateQueue sys),
                      running := (running sys)[i :=
                        awaitUpdates env 0 (take batchSize (updateQueue sys)) p]\<rparr>"]
      by (auto simp: resume_def stuck_def
            dest!: set_update_subset_insert [THEN subsetD])
  next
    case (AwaitUpdate k ok update rest)
    then show ?thesis
      using s i p
        same [of "awaitUpdates env (Suc k) rest p"
                 "sys\<lparr>updateQueue := attemptUpdate ok update (updateQueue sys),
                      running := (running sys)[i := awaitUpdates env (Suc k) rest p]\<rparr>"]
      by (auto simp: resume_def stuck_def
            dest!: set_update_subset_insert [THEN subsetD])
  next
    case AwaitPersistenceImport
    let ?batch = "take batchSize
        (filter (\<lambda>a. status (objects sys ! a) = Pending) (messageRefs sys))"
    from s have batch: "a \<notin> set ?batch"
      by (auto simp: stuck_def dest: in_set_takeD)
    then have "(case ?batch of [] \<Rightarrow> 0 | b # rest \<Rightarrow> if b = a then 1 else 0) = (0::nat)"
      by (cases ?batch) auto
    with handOver_stuck [OF s i batch, of B env 0 p] AwaitPersistenceImport
      finish_stuck [OF s i, of B p] handCount_finish [OF i, of p a B]
      handCount_handOver [OF i, of p a B env 0 ?batch] p
    show ?thesis
      by (simp add: resume_def)
  next
    case (AwaitPersist k b result rest)
    with hands have ab: "a \<noteq> b" and arest: "a \<notin> set rest"
      by (auto simp: inHands_def)
    let ?sys1 = "sys\<lparr>objects := (objects sys)[b := settle (fst (fst result)) (objects sys ! b)],
                 repeats := (case snd result of
                               None \<Rightarrow> repeats sys
                             | Some retry \<Rightarrow> repeats sys @ [(b, retry)])\<rparr>"
    from s ab have s1: "stuck a ?sys1"
      by (auto simp: stuck_def)
    from i have i1: "i < length (running ?sys1)" by simp
    from arest have "(case rest of [] \<Rightarrow> 0 | b # rest \<Rightarrow> if b = a then 1 else 0) = (0::nat)"
      by (cases rest) auto
    with handOver_stuck [OF s1 i1 arest, of B env "Suc k" p]
      handCount_handOver [OF i1, of p a B env "Suc k" rest] p ab AwaitPersist
    show ?thesis
      by (simp add: resume_def)
  qed
qed

lemma step_stuck:
  assumes s: "stuck a sys"
  shows "stuck a (step B ev sys)
         \<and> exceptToken (objects (step B ev sys) ! a) = exceptToken (objects sys ! a)
         \<and> (\<not> updatesTokens [ev] \<longrightarrow> objects (step B ev sys) ! a = objects sys ! a)
         \<and> handCount a (step B ev sys) = handCount a sys"
proof (cases ev)
  case (QueueMessage newId now md token prio)
  then show ?thesis
    using s
    by (auto simp: stuck_def split_def Let_def nth_append)
next
  case (QueueConversationUpdate newId now cid upd token)
  then show ?thesis
    using adopt_stuck [OF s] by simp
next
  case TimerTick
  then show ?thesis
    using s adopt_stuck [OF s] by (simp add: callProcessQueue_def split_def Let_def)
next
  case Online
  have "stuck a (sys\<lparr>connected := True\<rparr>)"
    using s by (simp add: stuck_def)
  from adopt_stuck [OF this] Online show ?thesis
    by (simp add: callProcessQueue_def split_def Let_def)
next
  case Offline
  then show ?thesis
    using s by (simp add: stuck_def)
next
  case ForceProcess
  then show ?thesis
    using adopt_stuck [OF s] by (simp add: callProcessQueue_def split_def Let_def)
next
  case (UpdateAuthTokens oldToken newToken)
  then show ?thesis
    using s
    by (auto simp: stuck_def split_def Let_def exceptToken_def)
next
  case ClearFailedMessages
  then show ?thesis
    using s by (auto simp: stuck_def)
next
  case (PassStep i env)
  then show ?thesis
    using s resume_stuck [OF s, of i "running sys ! i" B env] by simp
next
  case (RepeatFires j ok)
  then show ?thesis
    using s by (auto simp: stuck_def split_def Let_def)
qed

lemma updatesTokens_Cons:
  "updatesTokens (ev # evs) = (updatesTokens [ev] \<or> updatesTokens evs)"
  by (cases ev) simp_all

lemma run_stuck:
  "stuck a sys \<Longrightarrow>
   stuck a (run B evs sys)
   \<and> exceptToken (objects (run B evs sys) ! a) = exceptToken (objects sys ! a)
   \<and> (\<not> updatesTokens evs \<longrightarrow> objects (run B evs sys) ! a = objects sys ! a)
   \<and> handCount a (run B evs sys) = handCount a sys"
proof (induction evs arbitrary: sys)
  case Nil
  then show ?case by simp
next
  case (Cons ev evs)
  from step_stuck [OF Cons.prems, of B ev] Cons.IH [of "step B ev sys"]
    updatesTokens_Cons [of ev evs]
  show ?case by auto
qed

lemma hasQueuedItems_ignores_processing:
  "hasQueuedItems this =
     hasQueuedItems (this\<lparr>messageQueue := filter (\<lambda>m. status m \<noteq> Processing) (messageQueue this)\<rparr>)"
  by (auto simp: hasQueuedItems_def list_ex_iff)

lemma boot_stuck:
  assumes "parse B txt = Some v" "messages v = Some ms" "a < length ms"
    "status (ms ! a) = Processing"
  shows "stuck a (boot B (Some txt) online) \<and> objects (boot B (Some txt) online) ! a = ms ! a"
  using assms
  by (simp add: boot_def stuck_def newMessageQueue_def loadFromStorage_def Let_def)


text \<open>
  C9, as the claim states it, fails: the message does not stay unchanged. A message that
  a page load restores with status \<open>processing\<close> gets a new token at the next call of
  \<open>updateAuthTokens\<close>, which the application makes on every change of the
  authentication state.
\<close>

theorem stuck_item_token_counterexample:
  "localStorage (run demoBrowser midPassSave (boot demoBrowser None True)) = Some savedMidPass
   \<and> stuck 0 restored
   \<and> objects restored ! 0 = demoMessage ''m1'' 0 Processing
   \<and> objects (step demoBrowser (UpdateAuthTokens None ''new'') restored) ! 0 =
       (demoMessage ''m1'' 0 Processing)\<lparr>authToken := ''new''\<rparr>
   \<and> objects (step demoBrowser (UpdateAuthTokens None ''new'') restored) ! 0 \<noteq> objects restored ! 0"
  by code_simp

text \<open>
  C9 (amended): a message of the array whose status is \<open>processing\<close> and that no pass
  in flight holds stays so over every sequence of events: it stays in the array, which
  neither the clean-up of a pass nor \<open>clearFailedMessages\<close> removes it from, no pass
  selects it or hands it over, and nothing of it changes but its token, which
  \<open>updateAuthTokens\<close> rewrites; without such a call the message stays as it is.
  \<open>hasQueuedItems\<close> gives the same answer with and without the \<open>processing\<close>
  messages. A page load takes the stored messages as \<open>JSON.parse\<close> delivers them, so
  that one stored with status \<open>processing\<close> comes back in this condition.
\<close>

theorem stuck_items_stay_stuck:
  "(stuck a sys \<longrightarrow>
      stuck a (run B evs sys)
    \<and> exceptToken (objects (run B evs sys) ! a) = exceptToken (objects sys ! a)
    \<and> (\<not> updatesTokens evs \<longrightarrow> objects (run B evs sys) ! a = objects sys ! a)
    \<and> handCount a (run B evs sys) = handCount a sys)
   \<and> hasQueuedItems this =
       hasQueuedItems (this\<lparr>messageQueue := filter (\<lambda>m. status m \<noteq> Processing) (messageQueue this)\<rparr>)
   \<and> (parse B txt = Some v \<and> messages v = Some ms \<and> a < length ms \<and> status (ms ! a) = Processing \<longrightarrow>
        stuck a (boot B (Some txt) online) \<and> objects (boot B (Some txt) online) ! a = ms ! a)"
proof -
  note r = run_stuck [of a sys B evs]
  note b = boot_stuck [of B "txt" v ms a online]
  note h = hasQueuedItems_ignores_processing [of this]
  from r b h show ?thesis
    by blast
qed

theorem stuck_items_stay_stuck_witness:
  "stuck 0 restored
   \<and> \<not> updatesTokens afterRestore
   \<and> stuck 0 (run demoBrowser afterRestore restored)
   \<and> objects (run demoBrowser afterRestore restored) ! 0 = demoMessage ''m1'' 0 Processing
   \<and> handCount 0 (run demoBrowser afterRestore restored) = 0
   \<and> map (\<lambda>a. msg_id (objects (run demoBrowser afterRestore restored) ! a))
       (messageRefs (run demoBrowser afterRestore restored)) = [''h1'', ''m1'', ''m2'']
   \<and> handovers (run demoBrowser afterRestore restored) = [[1], [1], [2, 1]]
   \<and> stuck 0 (run demoBrowser (UpdateAuthTokens None ''new'' # afterRestore) restored)
   \<and> exceptToken (objects (run demoBrowser (UpdateAuthTokens None ''new'' # afterRestore) restored) ! 0) =
       exceptToken (demoMessage ''m1'' 0 Processing)
   \<and> hasQueuedItems (demoQueue [demoMessage ''m1'' 0 Processing]) = hasQueuedItems (demoQueue [])"
proof -
  let ?ms = "[demoMessage ''m1'' 0 Processing, newQueuedMessage ''m2'' 1 () ''tok'' Medium]"
  have p: "parse demoBrowser savedMidPass = Some savedMidPass \<and> messages savedMidPass = Some ?ms
           \<and> 0 < length ?ms \<and> status (?ms ! 0) = Processing"
    by (simp add: demoBrowser_def savedMidPass_def demoMessage_def)
  have u: "\<not> updatesTokens afterRestore"
    by code_simp
  have h: "handCount 0 restored = 0"
    by code_simp
  have q: "demoQueue [] =
      (demoQueue [demoMessage ''m1'' 0 Processing])\<lparr>messageQueue :=
         filter (\<lambda>m. status m \<noteq> Processing)
           (messageQueue (demoQueue [demoMessage ''m1'' 0 Processing]))\<rparr>"
    by (simp add: demoQueue_def demoMessage_def)
  have ids: "map (\<lambda>a. msg_id (objects (run demoBrowser afterRestore restored) ! a))
       (messageRefs (run demoBrowser afterRestore restored)) = [''h1'', ''m1'', ''m2'']"
    by code_simp
  have hs: "handovers (run demoBrowser afterRestore restored) = [[1], [1], [2, 1]]"
    by code_simp
  note t1 = stuck_items_stay_stuck [of 0 restored demoBrowser afterRestore
      "demoQueue [demoMessage ''m1'' 0 Processing]" savedMidPass savedMidPass ?ms True]
  note t2 = stuck_items_stay_stuck [of 0 restored demoBrowser
      "UpdateAuthTokens None ''new'' # afterRestore"
      "demoQueue [demoMessage ''m1'' 0 Processing]" savedMidPass savedMidPass ?ms True]
  from t1 p have s: "stuck 0 restored" and o: "objects restored ! 0 = demoMessage ''m1'' 0 Processing"
    by (simp_all add: restored_def)
  from t1 s u o h t2 q ids hs show ?thesis
    by simp
qed


subsection \<open>Round trip through local storage\<close>

lemma isJson_not_omitted: "isJson v \<Longrightarrow> \<not> omitted v"
  by (cases v) (simp_all add: omitted_def)

lemma isJson_jsonValue: "isJson v \<Longrightarrow> jsonValue v = v"
proof (induction v rule: jsonValue.induct)
  case (6 vs)
  then show ?case by (simp add: list_all_iff map_idI)
next
  case (7 ps)
  from "7.prems" have all: "\<And>k v. (k, v) \<in> set ps \<Longrightarrow> isJson v"
    by (auto simp: list_all_iff)
  then have keep: "filter (\<lambda>(k, v). \<not> omitted v) ps = ps"
    by (auto intro!: filter_True dest: isJson_not_omitted)
  have "map (\<lambda>(k, v). (k, jsonValue v)) ps = ps"
  proof (rule map_idI)
    fix x assume x: "x \<in> set ps"
    obtain k v where kv: "x = (k, v)" by (cases x)
    with x all have j: "isJson v" by blast
    with x kv keep have "(k, v) \<in> set (filter (\<lambda>(k, v). \<not> omitted v) ps)"
      by simp
    from "7.IH" [OF this refl j] kv show "(case x of (k, v) \<Rightarrow> (k, jsonValue v)) = x"
      by simp
  qed
  with keep show ?case by simp
qed simp_all

lemma isJson_jsonProperty: "isJson v \<Longrightarrow> jsonProperty v = v"
  by (simp add: jsonProperty_def isJson_not_omitted isJson_jsonValue)

lemma decode_encodeMessage:
  "decodeMessage (jsonValue (encodeMessage m)) = Some (reloaded m)"
  by (cases "priority m"; cases "status m")
     (simp_all add: decodeMessage_def encodeMessage_def field_def omitted_def reloaded_def
        jsonProperty_def priorityName_def statusName_def priorityOf_def statusOf_def)

lemma decode_encodeUpdate:
  "decodeUpdate (jsonValue (encodeUpdate u)) = Some (reloadedUpdate u)"
  by (simp add: decodeUpdate_def encodeUpdate_def field_def omitted_def reloadedUpdate_def
        jsonProperty_def)

lemma those_map_Some: "those (map (\<lambda>x. Some (f x)) xs) = Some (map f xs)"
  by (induction xs) simp_all

lemma throwsIn_encodeMessage [simp]: "throwsIn (encodeMessage m) = throwsIn (messageData m)"
  by (simp add: encodeMessage_def)

lemma throwsIn_encodeUpdate [simp]: "throwsIn (encodeUpdate u) = throwsIn (updates u)"
  by (simp add: encodeUpdate_def)

lemma stringify_jsRuntime:
  "stringify (jsRuntime accepts)
     \<lparr> messages = Some (messageQueue this), conversations = Some (conversationQueue this) \<rparr> =
   (if serializable this then Some (storedText this) else None)"
  by (auto simp: jsRuntime_def encodeStored_def serializable_def storedText_def list_ex_iff)

lemma parse_storedText:
  "parse (jsRuntime accepts) (storedText this) =
     Some \<lparr> messages = Some (map reloaded (messageQueue this)),
            conversations = Some (map reloadedUpdate (conversationQueue this)) \<rparr>"
  by (simp add: jsRuntime_def storedText_def encodeStored_def decodeStored_def decodeArray_def
        field_def omitted_def comp_def decode_encodeMessage decode_encodeUpdate those_map_Some)

lemma saveToStorage_jsRuntime:
  "saveToStorage (jsRuntime accepts) this ls =
     (if serializable this \<and> accepts (storedText this) then Some (storedText this) else ls)"
  by (simp add: saveToStorage_def stringify_jsRuntime) (simp add: jsRuntime_def)

lemma reload_saved:
  "serializable this \<Longrightarrow> accepts (storedText this) \<Longrightarrow>
   newMessageQueue (jsRuntime accepts) (saveToStorage (jsRuntime accepts) this ls) online =
     \<lparr> messageQueue = map reloaded (messageQueue this),
       conversationQueue = map reloadedUpdate (conversationQueue this),
       isProcessing = False, isOnline = online \<rparr>"
  by (simp add: saveToStorage_jsRuntime newMessageQueue_def loadFromStorage_def parse_storedText)


lemma queueMessage_storage:
  "snd (snd (snd (queueMessage B newId now md token prio st))) =
     saveToStorage B (fst (snd (snd (queueMessage B newId now md token prio st)))) (snd st)"
  "conversationQueue (fst (snd (snd (queueMessage B newId now md token prio st)))) =
     conversationQueue (fst st)"
  "fst (queueMessage B newId now md token prio st) =
     (if nullish B md then None else Some newId)"
  by (simp_all add: queueMessage_def split_def Let_def newQueuedMessage_def saveToStorage_def
        processQueue_start_def)

text \<open>
  C8, as the claim states it, fails: the payload is of type \<open>any\<close>, and what comes back
  from the storage is what \<open>JSON\<close> makes of it. A payload with a \<open>NaN\<close> in it comes back
  with \<open>null\<close> in its place, so the reloaded queue does not hold the message that was
  queued; the payload the application itself builds for a text message comes back without
  its property \<open>tool_data\<close>.
\<close>

theorem stored_payload_changes_counterexample:
  "messageQueue
     (newMessageQueue (jsRuntime (\<lambda>text. True))
        (snd (snd (snd (queueMessage (jsRuntime (\<lambda>text. True)) ''m1'' 0 toolPayload ''tok'' Medium
                          (freshQueue, None)))))
        True) =
     [newQueuedMessage ''m1'' 0
        (JObj [(''conversation_id'', JNum 7), (''sender'', JStr ''assistant''), (''content'', JStr ''ok''),
               (''message_type'', JStr ''tool_execution''),
               (''tool_data'', JObj [(''tool_name'', JStr ''t''), (''execution_time_ms'', JNull)])])
        ''tok'' Medium]
   \<and> newQueuedMessage ''m1'' 0 toolPayload ''tok'' Medium \<notin>
       set (messageQueue
         (newMessageQueue (jsRuntime (\<lambda>text. True))
            (snd (snd (snd (queueMessage (jsRuntime (\<lambda>text. True)) ''m1'' 0 toolPayload ''tok'' Medium
                              (freshQueue, None)))))
            True))
   \<and> map messageData (messageQueue
        (newMessageQueue (jsRuntime (\<lambda>text. True))
           (snd (snd (snd (queueMessage (jsRuntime (\<lambda>text. True)) ''m2'' 1 callerPayload ''tok'' Medium
                             (freshQueue, None)))))
           True)) =
     [JObj [(''conversation_id'', JNum 7), (''sender'', JStr ''user''), (''content'', JStr ''hi''),
            (''message_type'', JStr ''text''),
            (''metadata'', JObj [(''timestamp'', JStr ''2024-01-01T00:00:00.000Z''),
                                 (''migrated_from_anonymous'', JBool True),
                                 (''workspace_id'', JNum 5)])]]"
  by code_simp

text \<open>
  C8 (amended): \<open>queueMessage\<close> puts the new message into the queue and saves the queue;
  it returns the id unless the payload is \<open>null\<close> or \<open>undefined\<close>, where it throws after
  the save. When no payload of the queue makes \<open>JSON.stringify\<close> throw and the storage
  accepts the text, a new instance loaded from that storage holds the messages of the
  saved queue in their order, each with the same id, token, timestamp, retry count,
  priority and status and with the payload \<open>JSON\<close> makes of its payload, the new message
  among them; otherwise the storage keeps what it held. A payload that is JSON data comes
  back as it was. The same holds of every save of a queue, with the conversation updates.
\<close>

theorem stored_messages_round_trip:
  "(let B = jsRuntime accepts;
        queuedMessage = newQueuedMessage newId now md token prio;
        result = queueMessage B newId now md token prio (this, ls);
        this1 = fst (snd (snd result));
        ls1 = snd (snd (snd result))
    in messageQueue this1 =
         (if prio = High then queuedMessage # messageQueue this
          else messageQueue this @ [queuedMessage])
     \<and> fst result = (if md = JNull \<or> md = JUndefined then None else Some newId)
     \<and> (serializable this1 \<and> accepts (storedText this1) \<longrightarrow>
          ls1 = Some (storedText this1)
        \<and> messageQueue (newMessageQueue B ls1 online) = map reloaded (messageQueue this1)
        \<and> reloaded queuedMessage \<in> set (messageQueue (newMessageQueue B ls1 online)))
     \<and> (\<not> (serializable this1 \<and> accepts (storedText this1)) \<longrightarrow> ls1 = ls)
     \<and> reloaded queuedMessage = queuedMessage\<lparr>messageData := jsonProperty md\<rparr>
     \<and> (isJson md \<longrightarrow> reloaded queuedMessage = queuedMessage))
   \<and> (serializable mq \<and> accepts (storedText mq) \<longrightarrow>
        newMessageQueue (jsRuntime accepts) (saveToStorage (jsRuntime accepts) mq ls) online =
          \<lparr> messageQueue = map reloaded (messageQueue mq),
            conversationQueue = map reloadedUpdate (conversationQueue mq),
            isProcessing = False, isOnline = online \<rparr>)"
proof -
  let ?B = "jsRuntime accepts"
  let ?qm = "newQueuedMessage newId now md token prio"
  let ?Q = "queueMessage ?B newId now md token prio (this, ls)"
  let ?this1 = "fst (snd (snd ?Q))"
  let ?ls1 = "snd (snd (snd ?Q))"
  have mq: "messageQueue ?this1 =
         (if prio = High then ?qm # messageQueue this else messageQueue this @ [?qm])"
    by (simp add: queueMessage_messageQueue)
  have rid: "fst ?Q = (if md = JNull \<or> md = JUndefined then None else Some newId)"
    by (simp add: queueMessage_storage) (simp add: jsRuntime_def)
  have ls1: "?ls1 = (if serializable ?this1 \<and> accepts (storedText ?this1)
                     then Some (storedText ?this1) else ls)"
    using queueMessage_storage(1) [of ?B newId now md token prio "(this, ls)"]
    by (simp add: saveToStorage_jsRuntime)
  have load: "serializable ?this1 \<and> accepts (storedText ?this1) \<longrightarrow>
      messageQueue (newMessageQueue ?B ?ls1 online) = map reloaded (messageQueue ?this1)"
    using reload_saved [of ?this1 accepts ls online] ls1
    by (simp add: saveToStorage_jsRuntime)
  have mem: "reloaded ?qm \<in> set (map reloaded (messageQueue ?this1))"
    by (simp add: mq)
  have json: "isJson md \<longrightarrow> reloaded ?qm = ?qm"
    by (simp add: reloaded_def newQueuedMessage_def isJson_jsonProperty)
  have re: "reloaded ?qm = ?qm\<lparr>messageData := jsonProperty md\<rparr>"
    by (simp add: reloaded_def newQueuedMessage_def)
  from mq rid ls1 load mem json re reload_saved [of mq accepts ls online]
  show ?thesis
    unfolding Let_def by (intro conjI impI) simp_all
qed


theorem stored_messages_round_trip_witness:
  "serializable (fst (snd (snd (queueMessage (jsRuntime (\<lambda>text. True)) ''m1'' 0 jsonPayload ''tok''
                                   Medium (freshQueue, None)))))
   \<and> isJson jsonPayload
   \<and> fst (queueMessage (jsRuntime (\<lambda>text. True)) ''m1'' 0 jsonPayload ''tok'' Medium
            (freshQueue, None)) = Some ''m1''
   \<and> messageQueue
        (newMessageQueue (jsRuntime (\<lambda>text. True))
           (snd (snd (snd (queueMessage (jsRuntime (\<lambda>text. True)) ''m1'' 0 jsonPayload ''tok''
                             Medium (freshQueue, None)))))
           True) =
       [newQueuedMessage ''m1'' 0 jsonPayload ''tok'' Medium]
   \<and> serializable midQueue
   \<and> newMessageQueue (jsRuntime (\<lambda>text. True))
        (saveToStorage (jsRuntime (\<lambda>text. True)) midQueue None) True =
       \<lparr> messageQueue =
           [(newQueuedMessage ''m0'' 0
               (JObj [(''conversation_id'', JNum 7), (''sender'', JStr ''user''),
                      (''content'', JStr ''hi''), (''message_type'', JStr ''text''),
                      (''metadata'', JObj [(''timestamp'', JStr ''2024-01-01T00:00:00.000Z''),
                                           (''migrated_from_anonymous'', JBool True),
                                           (''workspace_id'', JNum 5)])])
               ''tok'' High)\<lparr>retryCount := 2, status := Processing\<rparr>],
         conversationQueue =
           [\<lparr> upd_id = ''u1'', conversationId = 7, updates = JObj [(''title'', JStr ''t'')],
               upd_authToken = ''tok'', upd_timestamp = 1, upd_retryCount = 1 \<rparr>],
         isProcessing = False, isOnline = True \<rparr>"
proof -
  let ?B = "jsRuntime (\<lambda>text. True)"
  let ?Q = "queueMessage ?B ''m1'' 0 jsonPayload ''tok'' Medium (freshQueue, None)"
  have s: "serializable (fst (snd (snd ?Q)))"
    by code_simp
  have j: "isJson jsonPayload"
    by code_simp
  have m: "serializable midQueue"
    by code_simp
  have f: "messageQueue freshQueue = []"
    by code_simp
  have n: "jsonPayload \<noteq> JNull \<and> jsonPayload \<noteq> JUndefined"
    by (simp add: jsonPayload_def)
  have r: "map reloaded (messageQueue midQueue) =
           [(newQueuedMessage ''m0'' 0
               (JObj [(''conversation_id'', JNum 7), (''sender'', JStr ''user''),
                      (''content'', JStr ''hi''), (''message_type'', JStr ''text''),
                      (''metadata'', JObj [(''timestamp'', JStr ''2024-01-01T00:00:00.000Z''),
                                           (''migrated_from_anonymous'', JBool True),
                                           (''workspace_id'', JNum 5)])])
               ''tok'' High)\<lparr>retryCount := 2, status := Processing\<rparr>]"
    by code_simp
  have u: "map reloadedUpdate (conversationQueue midQueue) =
           [\<lparr> upd_id = ''u1'', conversationId = 7, updates = JObj [(''title'', JStr ''t'')],
               upd_authToken = ''tok'', upd_timestamp = 1, upd_retryCount = 1 \<rparr>]"
    by code_simp
  note t = stored_messages_round_trip [of "\<lambda>text. True" "''m1''" 0 jsonPayload "''tok''" Medium
      freshQueue None True midQueue, unfolded Let_def]
  let ?qm = "newQueuedMessage ''m1'' 0 jsonPayload ''tok'' Medium"
  from t have "messageQueue (fst (snd (snd ?Q))) =
      (if Medium = High then ?qm # messageQueue freshQueue else messageQueue freshQueue @ [?qm])"
    by blast
  then have c1: "messageQueue (fst (snd (snd ?Q))) = [?qm]"
    by (simp add: f)
  from t have "fst ?Q = (if jsonPayload = JNull \<or> jsonPayload = JUndefined then None
                         else Some ''m1'')"
    by blast
  with n have c2: "fst ?Q = Some ''m1''"
    by simp
  from t s have c3: "messageQueue (newMessageQueue ?B (snd (snd (snd ?Q))) True) =
      map reloaded (messageQueue (fst (snd (snd ?Q))))"
    by blast
  from t j have c4: "reloaded ?qm = ?qm"
    by blast
  from t m have c5: "newMessageQueue ?B (saveToStorage ?B midQueue None) True =
          \<lparr> messageQueue = map reloaded (messageQueue midQueue),
            conversationQueue = map reloadedUpdate (conversationQueue midQueue),
            isProcessing = False, isOnline = True \<rparr>"
    by blast
  have c6: "messageQueue (newMessageQueue ?B (snd (snd (snd ?Q))) True) = [?qm]"
    by (simp add: c3 c1 c4)
  show ?thesis
    using s j c2 c6 m c5 [unfolded r u] by blast
qed


end
